theory Spec2Isabelle
  imports Main
begin

section \<open>JavaScript values and objects\<close>

text \<open>
  A property of a JavaScript object holds either \<open>undefined\<close>, \<open>null\<close> or a proper
  value. Reading a property that the object does not have yields \<open>undefined\<close>.
\<close>

datatype 'a jsval = JSUndefined | JSNull | JSVal 'a

text \<open>Truthiness of a slot that holds an object: \<open>undefined\<close> and \<open>null\<close> are falsy,
  every object is truthy.\<close>

fun truthy :: "'a jsval \<Rightarrow> bool" where
  "truthy JSUndefined = False"
| "truthy JSNull = False"
| "truthy (JSVal x) = True"

text \<open>Truthiness of a string-valued slot: the empty string is falsy as well.\<close>

fun truthyString :: "string jsval \<Rightarrow> bool" where
  "truthyString JSUndefined = False"
| "truthyString JSNull = False"
| "truthyString (JSVal s) = (s \<noteq> [])"

text \<open>
  An object used as a dictionary is the list of its own properties in enumeration
  order. \<open>jsGet\<close> is the property read \<open>obj[k]\<close>, \<open>jsSet\<close> the assignment
  \<open>obj[k] = v\<close> (an existing property keeps its place, a new one is added at the end),
  \<open>jsKeys\<close> the keys that \<open>for (const k in obj)\<close> enumerates, each once.
\<close>

type_synonym ('k, 'v) jsobject = "('k \<times> 'v jsval) list"

fun jsGet :: "('k, 'v) jsobject \<Rightarrow> 'k \<Rightarrow> 'v jsval" where
  "jsGet [] k = JSUndefined"
| "jsGet ((k', v) # kvs) k = (if k' = k then v else jsGet kvs k)"

fun jsSet :: "('k, 'v) jsobject \<Rightarrow> 'k \<Rightarrow> 'v jsval \<Rightarrow> ('k, 'v) jsobject" where
  "jsSet [] k v = [(k, v)]"
| "jsSet ((k', v') # kvs) k v = (if k' = k then (k, v) # kvs else (k', v') # jsSet kvs k v)"

definition jsKeys :: "('k, 'v) jsobject \<Rightarrow> 'k list" where
  "jsKeys obj = remdups (map fst obj)"

subsection \<open>Numbers\<close>

text \<open>
  A JavaScript number is an IEEE 754 double. The numbers met here are whole (the time
  spent is rounded up with \<open>Math.ceil\<close> before it is stored, visits are counted):
  \<open>Num n\<close> is the number whose value is the integer \<open>n\<close>, beside \<open>NaN\<close> and the
  two infinities. The sign of zero is not kept.
\<close>

datatype jsnumber = NaN | Num int | PlusInfinity | MinusInfinity

text \<open>The number of binary digits of \<open>n\<close>.\<close>

fun bitLength :: "nat \<Rightarrow> nat" where
  "bitLength n = (if n = 0 then 0 else Suc (bitLength (n div 2)))"

text \<open>\<open>n\<close> rounded to the nearest multiple of \<open>2 ^ k\<close>; halfway between two multiples, to
  the one with the even quotient.\<close>

definition roundTiesToEven :: "nat \<Rightarrow> nat \<Rightarrow> nat" where
  "roundTiesToEven n k =
     (let q = n div 2 ^ k; r = n mod 2 ^ k
      in if 2 * r < 2 ^ k then q * 2 ^ k
         else if 2 ^ k < 2 * r then (q + 1) * 2 ^ k
         else (if even q then q else q + 1) * 2 ^ k)"

text \<open>
  The double nearest to the integer \<open>x\<close>: a double keeps 53 significant binary digits,
  so the magnitude is rounded to a multiple of \<open>2 ^ (bitLength - 53)\<close>, and a result of
  \<open>2 ^ 1024\<close> or more is an infinity.
\<close>

definition toNumber :: "int \<Rightarrow> jsnumber" where
  "toNumber x =
     (let n = nat \<bar>x\<bar>;
          r = roundTiesToEven n (bitLength n - 53)
      in if 2 ^ 1024 \<le> r then (if x < 0 then MinusInfinity else PlusInfinity)
         else Num (if x < 0 then - int r else int r))"

text \<open>
  The operator \<open>+\<close> on two numbers: the exact sum of two doubles, rounded to the nearest
  double; \<open>NaN\<close> when an operand is \<open>NaN\<close> or the operands are opposite infinities.
\<close>

fun jsPlus :: "jsnumber \<Rightarrow> jsnumber \<Rightarrow> jsnumber" where
  "jsPlus (Num a) (Num b) = toNumber (a + b)"
| "jsPlus NaN y = NaN"
| "jsPlus x NaN = NaN"
| "jsPlus PlusInfinity MinusInfinity = NaN"
| "jsPlus MinusInfinity PlusInfinity = NaN"
| "jsPlus PlusInfinity y = PlusInfinity"
| "jsPlus x PlusInfinity = PlusInfinity"
| "jsPlus MinusInfinity y = MinusInfinity"
| "jsPlus x MinusInfinity = MinusInfinity"

section \<open>Data model\<close>

text \<open>
  The fields of \<open>AkitaOriginData\<close> that \<open>AkitaOriginStats\<close> reads: the origin, the
  monetization flag and \<open>originVisitData.timeSpentAtOrigin\<close> (milliseconds, a whole
  number).
\<close>

record AkitaOriginVisitData =
  timeSpentAtOrigin :: int

record AkitaOriginData =
  origin :: string
  isCurrentlyMonetized :: bool
  originVisitData :: AkitaOriginVisitData

text \<open>
  The class \<open>AkitaOriginStats\<close>. The entries of \<open>totalSentAssetsMap\<close> are
  \<open>WebMonetizationAsset\<close> objects; that class is not part of the sources at hand, so
  its instances are values of a type parameter \<open>'a\<close>.
\<close>

record 'a AkitaOriginStats =
  totalTimeSpent :: jsnumber
  totalMonetizedTimeSpent :: jsnumber
  totalVisits :: jsnumber
  totalMonetizedVisits :: jsnumber
  topOriginsMap :: "(nat, AkitaOriginData) jsobject"
  needsSomeLoveMap :: "(nat, AkitaOriginData) jsobject"
  totalSentAssetsMap :: "(string, 'a) jsobject"

definition ORIGIN_RANKING_FIRST :: nat where
  "ORIGIN_RANKING_FIRST = 1"

definition ORIGIN_RANKING_LAST :: nat where
  "ORIGIN_RANKING_LAST = 5"

text \<open>\<open>new AkitaOriginStats()\<close>: the field initialisers of the class.\<close>

definition AkitaOriginStats_new :: "'a AkitaOriginStats" where
  "AkitaOriginStats_new =
     \<lparr> totalTimeSpent = Num 0, totalMonetizedTimeSpent = Num 0,
       totalVisits = Num 0, totalMonetizedVisits = Num 0,
       topOriginsMap = [], needsSomeLoveMap = [], totalSentAssetsMap = [] \<rparr>"

section \<open>The top-origins board\<close>

text \<open>
  \<open>timeSpentAtContender > this.topOriginsMap[ranking].originVisitData.timeSpentAtOrigin\<close>;
  the source evaluates it only behind the truthiness test of the slot.
\<close>

fun contenderBeats :: "int \<Rightarrow> AkitaOriginData jsval \<Rightarrow> bool" where
  "contenderBeats t (JSVal d) = (t > timeSpentAtOrigin (originVisitData d))"
| "contenderBeats t JSUndefined = False"
| "contenderBeats t JSNull = False"

function contenderBattlesOriginAt :: "'a AkitaOriginStats \<Rightarrow> nat \<Rightarrow> int \<Rightarrow> nat" where
  "contenderBattlesOriginAt this ranking timeSpentAtContender =
     (if ranking > ORIGIN_RANKING_LAST
         \<or> \<not> truthy (jsGet (topOriginsMap this) ranking)
         \<or> (ranking \<le> ORIGIN_RANKING_LAST
              \<and> truthy (jsGet (topOriginsMap this) ranking)
              \<and> contenderBeats timeSpentAtContender (jsGet (topOriginsMap this) ranking))
      then ranking
      else contenderBattlesOriginAt this (ranking + 1) timeSpentAtContender)"
  by pat_completeness auto
termination
  by (relation "measure (\<lambda>(this, ranking, t). (ORIGIN_RANKING_LAST + 1) - ranking)") auto

function reorderTopOriginsMap ::
  "'a AkitaOriginStats \<Rightarrow> nat \<Rightarrow> AkitaOriginData jsval \<Rightarrow> 'a AkitaOriginStats" where
  "reorderTopOriginsMap this ranking replacementOrigin =
     (if ranking \<le> ORIGIN_RANKING_LAST then
        let currentOrigin = jsGet (topOriginsMap this) ranking;
            this' = this\<lparr>topOriginsMap := jsSet (topOriginsMap this) ranking replacementOrigin\<rparr>
        in reorderTopOriginsMap this' (ranking + 1) currentOrigin
      else this)"
  by pat_completeness auto
termination
  by (relation "measure (\<lambda>(this, ranking, r). (ORIGIN_RANKING_LAST + 1) - ranking)") auto

definition maybeUpdateTopOriginsMap ::
  "'a AkitaOriginStats \<Rightarrow> AkitaOriginData \<Rightarrow> 'a AkitaOriginStats" where
  "maybeUpdateTopOriginsMap this topOriginsContender =
     (if isCurrentlyMonetized topOriginsContender then
        let timeSpentAtContender = timeSpentAtOrigin (originVisitData topOriginsContender) in
        if timeSpentAtContender > 0 then
          let ranking = contenderBattlesOriginAt this ORIGIN_RANKING_FIRST timeSpentAtContender in
          if ranking > ORIGIN_RANKING_LAST then this
          else if \<not> truthy (jsGet (topOriginsMap this) ranking) then
            this\<lparr>topOriginsMap := jsSet (topOriginsMap this) ranking (JSVal topOriginsContender)\<rparr>
          else
            (case jsGet (topOriginsMap this) ranking of
               JSVal incumbent \<Rightarrow>
                 if origin topOriginsContender = origin incumbent then
                   this\<lparr>topOriginsMap :=
                          jsSet (topOriginsMap this) ranking (JSVal topOriginsContender)\<rparr>
                 else reorderTopOriginsMap this ranking (JSVal topOriginsContender)
             | _ \<Rightarrow> this)
        else this
      else this)"

section \<open>Totals and visit counters\<close>

definition updateTotalTimeSpent ::
  "'a AkitaOriginStats \<Rightarrow> jsnumber \<Rightarrow> 'a AkitaOriginStats" where
  "updateTotalTimeSpent this recentTimeSpent =
     this\<lparr>totalTimeSpent := jsPlus (totalTimeSpent this) recentTimeSpent\<rparr>"

definition updateTotalMonetizedTimeSpent ::
  "'a AkitaOriginStats \<Rightarrow> jsnumber \<Rightarrow> 'a AkitaOriginStats" where
  "updateTotalMonetizedTimeSpent this recentTimeSpent =
     this\<lparr>totalMonetizedTimeSpent :=
            jsPlus (totalMonetizedTimeSpent this) recentTimeSpent\<rparr>"

definition updateTimeSpent ::
  "'a AkitaOriginStats \<Rightarrow> jsnumber \<Rightarrow> AkitaOriginData \<Rightarrow> 'a AkitaOriginStats" where
  "updateTimeSpent this recentTimeSpent originData =
     (let this1 = maybeUpdateTopOriginsMap this originData;
          this2 = updateTotalTimeSpent this1 recentTimeSpent
      in if isCurrentlyMonetized originData
         then updateTotalMonetizedTimeSpent this2 recentTimeSpent
         else this2)"

definition incrementTotalVisits :: "'a AkitaOriginStats \<Rightarrow> 'a AkitaOriginStats" where
  "incrementTotalVisits this = this\<lparr>totalVisits := jsPlus (totalVisits this) (Num 1)\<rparr>"

definition incrementTotalMonetizedVisits :: "'a AkitaOriginStats \<Rightarrow> 'a AkitaOriginStats" where
  "incrementTotalMonetizedVisits this =
     this\<lparr>totalMonetizedVisits := jsPlus (totalMonetizedVisits this) (Num 1)\<rparr>"

definition incrementVisits :: "'a AkitaOriginStats \<Rightarrow> bool \<Rightarrow> 'a AkitaOriginStats" where
  "incrementVisits this originisCurrentlyMonetized =
     incrementTotalVisits
       (if originisCurrentlyMonetized then incrementTotalMonetizedVisits this else this)"

definition maybeUpdateNeedsSomeLoveMap ::
  "'a AkitaOriginStats \<Rightarrow> (nat, AkitaOriginData) jsobject \<Rightarrow> 'a AkitaOriginStats" where
  "maybeUpdateNeedsSomeLoveMap this newneedsSomeLoveMap =
     this\<lparr>needsSomeLoveMap := newneedsSomeLoveMap\<rparr>"

section \<open>The total sent assets map\<close>

text \<open>
  The argument of \<open>updateAssetsMapWithAsset\<close> is an object with the optional
  properties \<open>amount\<close>, \<open>assetScale\<close> (numbers) and \<open>assetCode\<close> (a string).
  Amounts and scales are whole numbers.
\<close>

record paymentData =
  paymentPointer :: "string jsval"
  amount :: "jsnumber jsval"
  assetScale :: "jsnumber jsval"
  assetCode :: "string jsval"

text \<open>The destructuring default \<open>= null\<close> replaces a property that is \<open>undefined\<close>
  (or missing), and nothing else.\<close>

fun defaultNull :: "'a jsval \<Rightarrow> 'a jsval" where
  "defaultNull JSUndefined = JSNull"
| "defaultNull v = v"

text \<open>The global \<open>isNaN\<close> converts its argument to a number first: \<open>undefined\<close>
  becomes \<open>NaN\<close>, \<open>null\<close> becomes \<open>0\<close>.\<close>

fun isNaN :: "jsnumber jsval \<Rightarrow> bool" where
  "isNaN JSUndefined = True"
| "isNaN JSNull = False"
| "isNaN (JSVal NaN) = True"
| "isNaN (JSVal (Num n)) = False"
| "isNaN (JSVal PlusInfinity) = False"
| "isNaN (JSVal MinusInfinity) = False"

text \<open>
  \<open>new WebMonetizationAsset(assetCode)\<close> and the method \<open>addAmount\<close> belong to a class
  outside the sources at hand; they are the parameters \<open>newAsset\<close> and \<open>addAmount\<close>.
  \<open>addAmount\<close> updates the asset object in place, which here replaces the entry.
\<close>

definition updateAssetsMapWithAsset ::
  "(string \<Rightarrow> 'a) \<Rightarrow> ('a \<Rightarrow> jsnumber jsval \<Rightarrow> jsnumber jsval \<Rightarrow> 'a) \<Rightarrow>
   'a AkitaOriginStats \<Rightarrow> paymentData \<Rightarrow> 'a AkitaOriginStats" where
  "updateAssetsMapWithAsset newAsset addAmount this pd =
     (let amount' = defaultNull (amount pd);
          assetScale' = defaultNull (assetScale pd);
          assetCode' = defaultNull (assetCode pd)
      in if \<not> isNaN amount' \<and> \<not> isNaN assetScale' \<and> truthyString assetCode' then
           (case assetCode' of
              JSVal code \<Rightarrow>
                let m = totalSentAssetsMap this;
                    m1 = (if \<not> truthy (jsGet m code)
                          then jsSet m code (JSVal (newAsset code)) else m)
                in (case jsGet m1 code of
                      JSVal asset \<Rightarrow>
                        this\<lparr>totalSentAssetsMap :=
                               jsSet m1 code (JSVal (addAmount asset amount' assetScale'))\<rparr>
                    | _ \<Rightarrow> this\<lparr>totalSentAssetsMap := m1\<rparr>)
            | _ \<Rightarrow> this)
         else this)"

section \<open>Reconstruction from a stored object\<close>

text \<open>
  The loop \<open>for (const origin in src) if (src[origin]) dst[origin] = fromObject(src[origin])\<close>
  over the enumerated keys \<open>ks\<close>. \<open>AkitaOriginData.fromObject\<close> is outside the sources at
  hand and is the parameter \<open>originFromObject\<close>.
\<close>

fun copyOriginEntries ::
  "(AkitaOriginData \<Rightarrow> AkitaOriginData) \<Rightarrow> (nat, AkitaOriginData) jsobject \<Rightarrow> nat list \<Rightarrow>
   (nat, AkitaOriginData) jsobject \<Rightarrow> (nat, AkitaOriginData) jsobject" where
  "copyOriginEntries originFromObject src [] dst = dst"
| "copyOriginEntries originFromObject src (k # ks) dst =
     copyOriginEntries originFromObject src ks
       (case jsGet src k of
          JSVal d \<Rightarrow> jsSet dst k (JSVal (originFromObject d))
        | _ \<Rightarrow> dst)"

text \<open>
  The loop \<open>for (const assetCode in src) dst[assetCode] = WebMonetizationAsset.fromObject(src[assetCode])\<close>.
  \<open>WebMonetizationAsset.fromObject\<close> is outside the sources at hand and is the parameter
  \<open>assetFromObject\<close>; it receives the entry whatever it is, and may throw (\<open>Inl\<close>), which
  ends the loop and the reconstruction.
\<close>

fun copyAssetEntries ::
  "('a jsval \<Rightarrow> 'e + 'a) \<Rightarrow> (string, 'a) jsobject \<Rightarrow> string list \<Rightarrow>
   (string, 'a) jsobject \<Rightarrow> 'e + (string, 'a) jsobject" where
  "copyAssetEntries assetFromObject src [] dst = Inr dst"
| "copyAssetEntries assetFromObject src (k # ks) dst =
     (case assetFromObject (jsGet src k) of
        Inl e \<Rightarrow> Inl e
      | Inr a \<Rightarrow> copyAssetEntries assetFromObject src ks (jsSet dst k (JSVal a)))"

definition fromObject ::
  "(AkitaOriginData \<Rightarrow> AkitaOriginData) \<Rightarrow> ('a jsval \<Rightarrow> 'e + 'a) \<Rightarrow>
   'a AkitaOriginStats \<Rightarrow> 'e + 'a AkitaOriginStats" where
  "fromObject originFromObject assetFromObject akitaOriginStats =
     (let newAkitaOriginStats = AkitaOriginStats_new
            \<lparr> totalTimeSpent := totalTimeSpent akitaOriginStats,
              totalMonetizedTimeSpent := totalMonetizedTimeSpent akitaOriginStats,
              totalVisits := totalVisits akitaOriginStats,
              totalMonetizedVisits := totalMonetizedVisits akitaOriginStats \<rparr>;
          new1 = newAkitaOriginStats
            \<lparr> topOriginsMap :=
                copyOriginEntries originFromObject (topOriginsMap akitaOriginStats)
                  (jsKeys (topOriginsMap akitaOriginStats)) (topOriginsMap newAkitaOriginStats) \<rparr>;
          new2 = new1
            \<lparr> needsSomeLoveMap :=
                copyOriginEntries originFromObject (needsSomeLoveMap akitaOriginStats)
                  (jsKeys (needsSomeLoveMap akitaOriginStats)) (needsSomeLoveMap new1) \<rparr>
      in case copyAssetEntries assetFromObject (totalSentAssetsMap akitaOriginStats)
                (jsKeys (totalSentAssetsMap akitaOriginStats)) (totalSentAssetsMap new2) of
           Inl e \<Rightarrow> Inl e
         | Inr assets \<Rightarrow> Inr (new2\<lparr>totalSentAssetsMap := assets\<rparr>))"

section \<open>Notions used to state the properties of the board\<close>

text \<open>
  \<open>reorderTopOriginsMap\<close> once more, returning beside the instance the number of shift
  steps, that is of assignments \<open>this.topOriginsMap[ranking] = replacementOrigin\<close>, that the
  recursion performs.
\<close>

function reorderTopOriginsMap_counted ::
  "'a AkitaOriginStats \<Rightarrow> nat \<Rightarrow> AkitaOriginData jsval \<Rightarrow> 'a AkitaOriginStats \<times> nat" where
  "reorderTopOriginsMap_counted this ranking replacementOrigin =
     (if ranking \<le> ORIGIN_RANKING_LAST then
        let currentOrigin = jsGet (topOriginsMap this) ranking;
            this' = this\<lparr>topOriginsMap := jsSet (topOriginsMap this) ranking replacementOrigin\<rparr>
        in (case reorderTopOriginsMap_counted this' (ranking + 1) currentOrigin of
              (result, shifts) \<Rightarrow> (result, shifts + 1))
      else (this, 0))"
  by pat_completeness auto
termination
  by (relation "measure (\<lambda>(this, ranking, r). (ORIGIN_RANKING_LAST + 1) - ranking)") auto

text \<open>The instance after \<open>maybeUpdateTopOriginsMap\<close> has been called with each candidate of
  \<open>cs\<close> in turn, starting from a new instance (an empty board).\<close>

definition afterCandidates :: "AkitaOriginData list \<Rightarrow> 'a AkitaOriginStats" where
  "afterCandidates cs = foldl maybeUpdateTopOriginsMap AkitaOriginStats_new cs"

text \<open>
  The condition of the specification for a placement rank: rank \<open>r\<close> is unoccupied, or its
  occupant's time-spent value is strictly less than \<open>t\<close>.
\<close>

definition unoccupiedOrWeaker :: "'a AkitaOriginStats \<Rightarrow> nat \<Rightarrow> int \<Rightarrow> bool" where
  "unoccupiedOrWeaker this r t =
     (case jsGet (topOriginsMap this) r of
        JSVal d \<Rightarrow> timeSpentAtOrigin (originVisitData d) < t
      | _ \<Rightarrow> True)"

text \<open>
  A board is ordered when its entries sit at ranks 1 to 5, without a gap from rank 1 on,
  and their time-spent values do not increase with the rank.
\<close>

definition boardOrdered :: "(nat, AkitaOriginData) jsobject \<Rightarrow> bool" where
  "boardOrdered m \<longleftrightarrow>
     (\<forall>k. truthy (jsGet m k) \<longrightarrow> 1 \<le> k \<and> k \<le> 5)
     \<and> (\<forall>i j. 1 \<le> i \<and> i \<le> j \<and> truthy (jsGet m j) \<longrightarrow> truthy (jsGet m i))
     \<and> (\<forall>i j di dj. i \<le> j \<and> jsGet m i = JSVal di \<and> jsGet m j = JSVal dj \<longrightarrow>
            timeSpentAtOrigin (originVisitData dj) \<le> timeSpentAtOrigin (originVisitData di))"

text \<open>An \<open>AkitaOriginData\<close> object, written with its three fields in a row.\<close>

abbreviation site :: "string \<Rightarrow> bool \<Rightarrow> int \<Rightarrow> AkitaOriginData" where
  "site name monetized t \<equiv>
     \<lparr>origin = name, isCurrentlyMonetized = monetized,
      originVisitData = \<lparr>timeSpentAtOrigin = t\<rparr>\<rparr>"

section \<open>Facts about objects\<close>

lemma jsGet_jsSet: "jsGet (jsSet obj k v) k' = (if k' = k then v else jsGet obj k')"
  by (induction obj) auto

declare contenderBattlesOriginAt.simps [simp del]
declare reorderTopOriginsMap.simps [simp del]
declare reorderTopOriginsMap_counted.simps [simp del]

section \<open>The board operations touch nothing but the board\<close>

lemma reorderTopOriginsMap_only_board:
  "\<exists>m. reorderTopOriginsMap this r x = this\<lparr>topOriginsMap := m\<rparr>"
proof (induction this r x rule: reorderTopOriginsMap.induct)
  case (1 this ranking replacementOrigin)
  show ?case
  proof (cases "ranking \<le> ORIGIN_RANKING_LAST")
    case True
    from "1.IH"[OF True refl refl] obtain m where
      "reorderTopOriginsMap
         (this\<lparr>topOriginsMap := jsSet (topOriginsMap this) ranking replacementOrigin\<rparr>)
         (ranking + 1) (jsGet (topOriginsMap this) ranking) =
       this\<lparr>topOriginsMap := m\<rparr>"
      by auto
    with True have
      "reorderTopOriginsMap this ranking replacementOrigin = this\<lparr>topOriginsMap := m\<rparr>"
      by (subst reorderTopOriginsMap.simps) (simp add: Let_def)
    then show ?thesis ..
  next
    case False
    then have "reorderTopOriginsMap this ranking replacementOrigin =
               this\<lparr>topOriginsMap := topOriginsMap this\<rparr>"
      by (subst reorderTopOriginsMap.simps) simp
    then show ?thesis ..
  qed
qed

lemma maybeUpdateTopOriginsMap_only_board:
  "\<exists>m. maybeUpdateTopOriginsMap this c = this\<lparr>topOriginsMap := m\<rparr>"
proof -
  have keep: "\<exists>m. this = this\<lparr>topOriginsMap := m\<rparr>"
    by (rule exI[of _ "topOriginsMap this"]) simp
  show ?thesis
    unfolding maybeUpdateTopOriginsMap_def Let_def
    using keep reorderTopOriginsMap_only_board
    by (auto split: jsval.splits)
qed

lemma maybeUpdateTopOriginsMap_unmonetized:
  "\<not> isCurrentlyMonetized c \<Longrightarrow> maybeUpdateTopOriginsMap this c = this"
  by (simp add: maybeUpdateTopOriginsMap_def)

section \<open>Addition of numbers\<close>

declare bitLength.simps [simp del]

lemma bitLength_0: "bitLength 0 = 0"
  by (subst bitLength.simps) simp

lemma bitLength_le: "n < 2 ^ m \<Longrightarrow> bitLength n \<le> m"
proof (induction m arbitrary: n)
  case 0
  then show ?case by (simp add: bitLength_0)
next
  case (Suc m)
  show ?case
  proof (cases "n = 0")
    case True
    then show ?thesis by (simp add: bitLength_0)
  next
    case False
    from Suc.prems have "n div 2 < 2 ^ m" by simp
    from Suc.IH[OF this] False show ?thesis
      by (subst bitLength.simps) simp
  qed
qed

lemma bitLength_power: "bitLength (2 ^ m) = Suc m"
proof (induction m)
  case 0
  have "bitLength 1 = Suc (bitLength 0)"
    by (subst bitLength.simps) simp
  then show ?case by (simp add: bitLength_0)
next
  case (Suc m)
  have "bitLength (2 ^ Suc m) = Suc (bitLength (2 ^ m))"
    by (subst bitLength.simps) simp
  with Suc.IH show ?case by simp
qed

lemma roundTiesToEven_0: "roundTiesToEven n 0 = n"
  by (simp add: roundTiesToEven_def)

lemma toNumber_exact:
  assumes "\<bar>x\<bar> \<le> 2 ^ 53"
  shows "toNumber x = Num x"
proof -
  define n where "n = nat \<bar>x\<bar>"
  have n: "n \<le> 2 ^ 53" using assms by (simp add: n_def nat_le_iff)
  have r: "roundTiesToEven n (bitLength n - 53) = n"
  proof (cases "n = 2 ^ 53")
    case True
    have "bitLength n = Suc 53"
      unfolding True by (rule bitLength_power)
    then have "roundTiesToEven n (bitLength n - 53) = roundTiesToEven n 1"
      by simp
    also have "\<dots> = n"
      unfolding True by (simp add: roundTiesToEven_def)
    finally show ?thesis .
  next
    case False
    with n have "n < 2 ^ 53" by simp
    then have "bitLength n - 53 = 0" using bitLength_le by simp
    then show ?thesis by (simp add: roundTiesToEven_0)
  qed
  have "n < 2 ^ 1024"
  proof -
    have "(2::nat) ^ 53 < 2 ^ 1024" by (rule power_strict_increasing) simp_all
    with n show ?thesis by simp
  qed
  with r show ?thesis
    unfolding toNumber_def Let_def n_def[symmetric]
    by (auto simp: n_def)
qed

lemma jsPlus_exact:
  "\<bar>a + b\<bar> \<le> 2 ^ 53 \<Longrightarrow> jsPlus (Num a) (Num b) = Num (a + b)"
  by (simp add: toNumber_exact)

text \<open>Beyond \<open>2 ^ 53\<close> the sum is rounded: adding 1 to \<open>2 ^ 53\<close> gives \<open>2 ^ 53\<close>.\<close>

lemma bitLength_ge: "2 ^ m \<le> n \<Longrightarrow> Suc m \<le> bitLength n"
proof (induction m arbitrary: n)
  case 0
  then have "n \<noteq> 0" by auto
  then show ?case by (subst bitLength.simps) simp
next
  case (Suc m)
  have "(0::nat) < 2 ^ Suc m" by simp
  from this Suc.prems have "0 < n" by (rule less_le_trans)
  then have "n \<noteq> 0" by simp
  from Suc.prems have "2 ^ m \<le> n div 2" by simp
  from Suc.IH[OF this] \<open>n \<noteq> 0\<close> show ?case
    by (subst bitLength.simps) simp
qed

lemma jsPlus_rounds: "jsPlus (Num (2 ^ 53)) (Num 1) = Num (2 ^ 53)"
proof -
  define n :: nat where "n = 2 ^ 53 + 1"
  have "2 ^ 53 \<le> n" "n < 2 ^ 54" by (simp_all add: n_def)
  then have "bitLength n = 54"
    using bitLength_ge[of 53 n] bitLength_le[of n 54] by simp
  then have k: "bitLength n - 53 = 1" by simp
  have r: "roundTiesToEven n 1 = 2 ^ 53"
    by (simp add: roundTiesToEven_def n_def)
  have small: "\<not> (2::nat) ^ 1024 \<le> 2 ^ 53"
    by (simp add: not_le power_strict_increasing)
  have nat: "nat \<bar>2 ^ 53 + 1 :: int\<bar> = n"
    by (simp add: n_def)
  have "toNumber (2 ^ 53 + 1) = Num (2 ^ 53)"
    unfolding toNumber_def Let_def nat k r using small by simp
  then show ?thesis by simp
qed

section \<open>Time spent and visits\<close>

text \<open>
  C6: \<open>updateTimeSpent\<close> adds \<open>recentTimeSpent\<close> to \<open>totalTimeSpent\<close> whatever the
  record is, adds it to \<open>totalMonetizedTimeSpent\<close> exactly when the record's
  \<open>isCurrentlyMonetized\<close> flag is set, and always hands the record to
  \<open>maybeUpdateTopOriginsMap\<close>: the board afterwards is the board that call leaves, which
  for a record that is not monetized is the board as it was. The visit counters, the
  needs-some-love map and the asset map stay as they are. The addition is the addition of
  numbers; for a non-negative whole \<open>recentTimeSpent\<close> and a whole total, both and their
  sum within \<open>2 ^ 53\<close> in magnitude, the new total is the exact sum.
\<close>

theorem updateTimeSpent_totals_and_board:
  "totalTimeSpent (updateTimeSpent this recentTimeSpent originData)
      = jsPlus (totalTimeSpent this) recentTimeSpent
   \<and> totalMonetizedTimeSpent (updateTimeSpent this recentTimeSpent originData)
      = (if isCurrentlyMonetized originData
         then jsPlus (totalMonetizedTimeSpent this) recentTimeSpent
         else totalMonetizedTimeSpent this)
   \<and> (\<forall>total recent. totalTimeSpent this = Num total \<and> recentTimeSpent = Num recent
          \<and> 0 \<le> recent \<and> recent \<le> 2 ^ 53 \<and> - (2 ^ 53) \<le> total \<and> total + recent \<le> 2 ^ 53
        \<longrightarrow> totalTimeSpent (updateTimeSpent this recentTimeSpent originData)
              = Num (total + recent))
   \<and> (\<forall>total recent. isCurrentlyMonetized originData
          \<and> totalMonetizedTimeSpent this = Num total \<and> recentTimeSpent = Num recent
          \<and> 0 \<le> recent \<and> recent \<le> 2 ^ 53 \<and> - (2 ^ 53) \<le> total \<and> total + recent \<le> 2 ^ 53
        \<longrightarrow> totalMonetizedTimeSpent (updateTimeSpent this recentTimeSpent originData)
              = Num (total + recent))
   \<and> topOriginsMap (updateTimeSpent this recentTimeSpent originData)
      = topOriginsMap (maybeUpdateTopOriginsMap this originData)
   \<and> (\<not> isCurrentlyMonetized originData \<longrightarrow>
        topOriginsMap (updateTimeSpent this recentTimeSpent originData) = topOriginsMap this)
   \<and> totalVisits (updateTimeSpent this recentTimeSpent originData) = totalVisits this
   \<and> totalMonetizedVisits (updateTimeSpent this recentTimeSpent originData)
      = totalMonetizedVisits this
   \<and> needsSomeLoveMap (updateTimeSpent this recentTimeSpent originData) = needsSomeLoveMap this
   \<and> totalSentAssetsMap (updateTimeSpent this recentTimeSpent originData)
      = totalSentAssetsMap this"
proof -
  obtain m where m: "maybeUpdateTopOriginsMap this originData = this\<lparr>topOriginsMap := m\<rparr>"
    using maybeUpdateTopOriginsMap_only_board by blast
  have frame:
    "totalTimeSpent (maybeUpdateTopOriginsMap this originData) = totalTimeSpent this"
    "totalMonetizedTimeSpent (maybeUpdateTopOriginsMap this originData)
       = totalMonetizedTimeSpent this"
    "totalVisits (maybeUpdateTopOriginsMap this originData) = totalVisits this"
    "totalMonetizedVisits (maybeUpdateTopOriginsMap this originData) = totalMonetizedVisits this"
    "needsSomeLoveMap (maybeUpdateTopOriginsMap this originData) = needsSomeLoveMap this"
    "totalSentAssetsMap (maybeUpdateTopOriginsMap this originData) = totalSentAssetsMap this"
    by (simp_all add: m)
  have total: "totalTimeSpent (updateTimeSpent this recentTimeSpent originData)
      = jsPlus (totalTimeSpent this) recentTimeSpent"
    by (simp add: updateTimeSpent_def Let_def frame updateTotalTimeSpent_def
        updateTotalMonetizedTimeSpent_def)
  have monetized: "totalMonetizedTimeSpent (updateTimeSpent this recentTimeSpent originData)
      = (if isCurrentlyMonetized originData
         then jsPlus (totalMonetizedTimeSpent this) recentTimeSpent
         else totalMonetizedTimeSpent this)"
    by (simp add: updateTimeSpent_def Let_def frame updateTotalTimeSpent_def
        updateTotalMonetizedTimeSpent_def)
  have exact: "jsPlus (Num total) (Num recent) = Num (total + recent)"
    if "0 \<le> recent" "- (2 ^ 53) \<le> total" "total + recent \<le> 2 ^ 53" for total recent :: int
    using that by (intro jsPlus_exact) (simp add: abs_le_iff)
  have total_exact: "\<forall>total recent. totalTimeSpent this = Num total \<and> recentTimeSpent = Num recent
          \<and> 0 \<le> recent \<and> recent \<le> 2 ^ 53 \<and> - (2 ^ 53) \<le> total \<and> total + recent \<le> 2 ^ 53
        \<longrightarrow> totalTimeSpent (updateTimeSpent this recentTimeSpent originData)
              = Num (total + recent)"
  proof (intro allI impI, elim conjE)
    fix total recent
    assume a: "totalTimeSpent this = Num total" "recentTimeSpent = Num recent"
      and b: "0 \<le> recent" "- (2 ^ 53) \<le> total" "total + recent \<le> 2 ^ 53"
    from b have e: "jsPlus (Num total) (Num recent) = Num (total + recent)" by (rule exact)
    have "totalTimeSpent (updateTimeSpent this recentTimeSpent originData)
            = jsPlus (totalTimeSpent this) recentTimeSpent"
      by (rule total)
    also have "\<dots> = jsPlus (Num total) (Num recent)"
      by (simp only: a)
    also note e
    finally show "totalTimeSpent (updateTimeSpent this recentTimeSpent originData)
              = Num (total + recent)" .
  qed
  have monetized_exact: "\<forall>total recent. isCurrentlyMonetized originData
          \<and> totalMonetizedTimeSpent this = Num total \<and> recentTimeSpent = Num recent
          \<and> 0 \<le> recent \<and> recent \<le> 2 ^ 53 \<and> - (2 ^ 53) \<le> total \<and> total + recent \<le> 2 ^ 53
        \<longrightarrow> totalMonetizedTimeSpent (updateTimeSpent this recentTimeSpent originData)
              = Num (total + recent)"
  proof (intro allI impI, elim conjE)
    fix total recent
    assume a: "isCurrentlyMonetized originData"
      "totalMonetizedTimeSpent this = Num total" "recentTimeSpent = Num recent"
      and b: "0 \<le> recent" "- (2 ^ 53) \<le> total" "total + recent \<le> 2 ^ 53"
    from b have e: "jsPlus (Num total) (Num recent) = Num (total + recent)" by (rule exact)
    have "totalMonetizedTimeSpent (updateTimeSpent this recentTimeSpent originData)
            = jsPlus (totalMonetizedTimeSpent this) recentTimeSpent"
      using monetized a(1) by simp
    also have "\<dots> = jsPlus (Num total) (Num recent)"
      by (simp only: a)
    also note e
    finally show "totalMonetizedTimeSpent (updateTimeSpent this recentTimeSpent originData)
              = Num (total + recent)" .
  qed
  have rest: "topOriginsMap (updateTimeSpent this recentTimeSpent originData)
      = topOriginsMap (maybeUpdateTopOriginsMap this originData)
   \<and> (\<not> isCurrentlyMonetized originData \<longrightarrow>
        topOriginsMap (updateTimeSpent this recentTimeSpent originData) = topOriginsMap this)
   \<and> totalVisits (updateTimeSpent this recentTimeSpent originData) = totalVisits this
   \<and> totalMonetizedVisits (updateTimeSpent this recentTimeSpent originData)
      = totalMonetizedVisits this
   \<and> needsSomeLoveMap (updateTimeSpent this recentTimeSpent originData) = needsSomeLoveMap this
   \<and> totalSentAssetsMap (updateTimeSpent this recentTimeSpent originData)
      = totalSentAssetsMap this"
    by (simp add: updateTimeSpent_def Let_def frame updateTotalTimeSpent_def
        updateTotalMonetizedTimeSpent_def maybeUpdateTopOriginsMap_unmonetized)
  from total monetized total_exact monetized_exact rest show ?thesis by blast
qed

theorem updateTimeSpent_totals_and_board_witness:
  "totalTimeSpent (updateTimeSpent
       ((AkitaOriginStats_new :: unit AkitaOriginStats)
          \<lparr>totalTimeSpent := Num 5000, totalMonetizedTimeSpent := Num 3000\<rparr>)
       (Num 2000) (site ''https://a.example'' True 4000)) = Num 7000
   \<and> totalMonetizedTimeSpent (updateTimeSpent
       ((AkitaOriginStats_new :: unit AkitaOriginStats)
          \<lparr>totalTimeSpent := Num 5000, totalMonetizedTimeSpent := Num 3000\<rparr>)
       (Num 2000) (site ''https://a.example'' True 4000)) = Num 5000
   \<and> totalMonetizedTimeSpent (updateTimeSpent
       ((AkitaOriginStats_new :: unit AkitaOriginStats)
          \<lparr>totalTimeSpent := Num 5000, totalMonetizedTimeSpent := Num 3000\<rparr>)
       (Num 2000) (site ''https://b.example'' False 4000)) = Num 3000
   \<and> topOriginsMap (updateTimeSpent
       ((AkitaOriginStats_new :: unit AkitaOriginStats)
          \<lparr>totalTimeSpent := Num 5000, totalMonetizedTimeSpent := Num 3000\<rparr>)
       (Num 2000) (site ''https://b.example'' False 4000)) = []"
proof -
  let ?s = "(AkitaOriginStats_new :: unit AkitaOriginStats)
          \<lparr>totalTimeSpent := Num 5000, totalMonetizedTimeSpent := Num 3000\<rparr>"
  note a = updateTimeSpent_totals_and_board
      [of ?s "Num 2000" "site ''https://a.example'' True 4000"]
  note b = updateTimeSpent_totals_and_board
      [of ?s "Num 2000" "site ''https://b.example'' False 4000"]
  have 1: "totalTimeSpent (updateTimeSpent ?s (Num 2000) (site ''https://a.example'' True 4000))
             = Num (5000 + 2000)"
    by (rule a[THEN conjunct2, THEN conjunct2, THEN conjunct1, rule_format])
       (simp add: AkitaOriginStats_new_def)
  have 2: "totalMonetizedTimeSpent
             (updateTimeSpent ?s (Num 2000) (site ''https://a.example'' True 4000))
             = Num (3000 + 2000)"
    by (rule a[THEN conjunct2, THEN conjunct2, THEN conjunct2, THEN conjunct1, rule_format])
       (simp add: AkitaOriginStats_new_def)
  from b have 3: "totalMonetizedTimeSpent
             (updateTimeSpent ?s (Num 2000) (site ''https://b.example'' False 4000))
             = Num 3000"
    by (simp add: AkitaOriginStats_new_def)
  from b have 4: "topOriginsMap
             (updateTimeSpent ?s (Num 2000) (site ''https://b.example'' False 4000)) = []"
    by (simp add: AkitaOriginStats_new_def maybeUpdateTopOriginsMap_def)
  from 1 2 3 4 show ?thesis by simp
qed

text \<open>
  C9: \<open>incrementVisits\<close> adds 1 to \<open>totalVisits\<close>, adds 1 to \<open>totalMonetizedVisits\<close>
  when the flag is true and leaves it alone when the flag is false, and changes none of
  \<open>totalTimeSpent\<close>, \<open>totalMonetizedTimeSpent\<close>, the top-origins board, the
  needs-some-love map and the asset map. The addition is the addition of numbers; a whole
  counter below \<open>2 ^ 53\<close> in magnitude goes up by exactly one.
\<close>

theorem incrementVisits_only_counters:
  "totalVisits (incrementVisits this flag) = jsPlus (totalVisits this) (Num 1)
   \<and> (flag \<longrightarrow> totalMonetizedVisits (incrementVisits this flag)
                 = jsPlus (totalMonetizedVisits this) (Num 1))
   \<and> (\<not> flag \<longrightarrow> totalMonetizedVisits (incrementVisits this flag) = totalMonetizedVisits this)
   \<and> (\<forall>v. totalVisits this = Num v \<and> \<bar>v\<bar> < 2 ^ 53
        \<longrightarrow> totalVisits (incrementVisits this flag) = Num (v + 1))
   \<and> (\<forall>v. flag \<and> totalMonetizedVisits this = Num v \<and> \<bar>v\<bar> < 2 ^ 53
        \<longrightarrow> totalMonetizedVisits (incrementVisits this flag) = Num (v + 1))
   \<and> totalTimeSpent (incrementVisits this flag) = totalTimeSpent this
   \<and> totalMonetizedTimeSpent (incrementVisits this flag) = totalMonetizedTimeSpent this
   \<and> topOriginsMap (incrementVisits this flag) = topOriginsMap this
   \<and> needsSomeLoveMap (incrementVisits this flag) = needsSomeLoveMap this
   \<and> totalSentAssetsMap (incrementVisits this flag) = totalSentAssetsMap this"
proof -
  have exact: "jsPlus (Num v) (Num 1) = Num (v + 1)" if "\<bar>v\<bar> < 2 ^ 53" for v :: int
    using that by (intro jsPlus_exact) (simp add: abs_le_iff abs_less_iff)
  show ?thesis
    using exact
    by (simp add: incrementVisits_def incrementTotalVisits_def incrementTotalMonetizedVisits_def)
qed

theorem incrementVisits_only_counters_witness:
  "totalVisits (incrementVisits
      ((AkitaOriginStats_new :: unit AkitaOriginStats)
         \<lparr>totalVisits := Num 41, totalMonetizedVisits := Num 7\<rparr>) True) = Num 42
   \<and> totalMonetizedVisits (incrementVisits
      ((AkitaOriginStats_new :: unit AkitaOriginStats)
         \<lparr>totalVisits := Num 41, totalMonetizedVisits := Num 7\<rparr>) True) = Num 8
   \<and> totalMonetizedVisits (incrementVisits
      ((AkitaOriginStats_new :: unit AkitaOriginStats)
         \<lparr>totalVisits := Num 41, totalMonetizedVisits := Num 7\<rparr>) False) = Num 7
   \<and> topOriginsMap (incrementVisits
      ((AkitaOriginStats_new :: unit AkitaOriginStats)
         \<lparr>totalVisits := Num 41, totalMonetizedVisits := Num 7\<rparr>) True) = []"
proof -
  let ?s = "(AkitaOriginStats_new :: unit AkitaOriginStats)
         \<lparr>totalVisits := Num 41, totalMonetizedVisits := Num 7\<rparr>"
  note t = incrementVisits_only_counters [of ?s True]
  note f = incrementVisits_only_counters [of ?s False]
  have 1: "totalVisits (incrementVisits ?s True) = Num (41 + 1)"
    by (rule t[THEN conjunct2, THEN conjunct2, THEN conjunct2, THEN conjunct1, rule_format])
       (simp add: AkitaOriginStats_new_def)
  have 2: "totalMonetizedVisits (incrementVisits ?s True) = Num (7 + 1)"
    by (rule t[THEN conjunct2, THEN conjunct2, THEN conjunct2, THEN conjunct2, THEN conjunct1,
          rule_format])
       (simp add: AkitaOriginStats_new_def)
  from f have 3: "totalMonetizedVisits (incrementVisits ?s False) = Num 7"
    by (simp add: AkitaOriginStats_new_def)
  from t have 4: "topOriginsMap (incrementVisits ?s True) = []"
    by (simp add: AkitaOriginStats_new_def)
  from 1 2 3 4 show ?thesis by simp
qed

text \<open>At \<open>2 ^ 53\<close> the counters stop: one more visit leaves \<open>totalVisits\<close> where it
  is, and one more millisecond leaves \<open>totalTimeSpent\<close> where it is.\<close>

lemma incrementVisits_at_2_53:
  "totalVisits this = Num (2 ^ 53) \<Longrightarrow>
   totalVisits (incrementVisits this flag) = Num (2 ^ 53)"
  using jsPlus_rounds
  by (simp add: incrementVisits_def incrementTotalVisits_def incrementTotalMonetizedVisits_def)

lemma updateTotalTimeSpent_at_2_53:
  "totalTimeSpent this = Num (2 ^ 53) \<Longrightarrow>
   totalTimeSpent (updateTotalTimeSpent this (Num 1)) = Num (2 ^ 53)"
  using jsPlus_rounds by (simp add: updateTotalTimeSpent_def)

section \<open>The rank search and the cascade\<close>

text \<open>Induction upwards along the ranks, as both recursions run.\<close>

lemma rank_induct:
  assumes "\<And>r. (r \<le> ORIGIN_RANKING_LAST \<Longrightarrow> P (r + 1)) \<Longrightarrow> P r"
  shows "P (r::nat)"
proof (induction "Suc ORIGIN_RANKING_LAST - r" arbitrary: r)
  case 0
  show ?case
  proof (rule assms)
    assume "r \<le> ORIGIN_RANKING_LAST"
    with 0 show "P (r + 1)" by simp
  qed
next
  case (Suc n)
  show ?case
  proof (rule assms)
    assume "r \<le> ORIGIN_RANKING_LAST"
    with Suc.hyps(2) have "n = Suc ORIGIN_RANKING_LAST - (r + 1)" by simp
    then show "P (r + 1)" by (rule Suc.hyps(1))
  qed
qed

lemma contender_stop:
  "ORIGIN_RANKING_LAST < r \<or> unoccupiedOrWeaker this r t \<Longrightarrow> contenderBattlesOriginAt this r t = r"
  by (subst contenderBattlesOriginAt.simps)
     (auto simp: unoccupiedOrWeaker_def split: jsval.splits)

lemma contender_continue:
  "r \<le> ORIGIN_RANKING_LAST \<Longrightarrow> \<not> unoccupiedOrWeaker this r t \<Longrightarrow>
   contenderBattlesOriginAt this r t = contenderBattlesOriginAt this (r + 1) t"
  by (subst contenderBattlesOriginAt.simps)
     (auto simp: unoccupiedOrWeaker_def split: jsval.splits)

lemma contender_spec:
  "r \<le> contenderBattlesOriginAt this r t
   \<and> contenderBattlesOriginAt this r t \<le> max r (ORIGIN_RANKING_LAST + 1)
   \<and> (\<forall>k. r \<le> k \<and> k < contenderBattlesOriginAt this r t \<longrightarrow> \<not> unoccupiedOrWeaker this k t)
   \<and> (contenderBattlesOriginAt this r t \<le> ORIGIN_RANKING_LAST \<longrightarrow>
        unoccupiedOrWeaker this (contenderBattlesOriginAt this r t) t)"
proof (induction r rule: rank_induct)
  case (1 r)
  show ?case
  proof (cases "ORIGIN_RANKING_LAST < r \<or> unoccupiedOrWeaker this r t")
    case True
    then have "contenderBattlesOriginAt this r t = r" by (rule contender_stop)
    with True show ?thesis by auto
  next
    case False
    then have le: "r \<le> ORIGIN_RANKING_LAST" and occ: "\<not> unoccupiedOrWeaker this r t" by auto
    have eq: "contenderBattlesOriginAt this r t = contenderBattlesOriginAt this (r + 1) t"
      using le occ by (rule contender_continue)
    have k: "k = r \<or> r + 1 \<le> k" if "r \<le> k" for k using that by auto
    show ?thesis
      unfolding eq using "1"[OF le] le occ k by (auto simp: max_def)
  qed
qed

lemma reorder_get:
  "jsGet (topOriginsMap (reorderTopOriginsMap this r x)) k =
     (if k < r \<or> ORIGIN_RANKING_LAST < k then jsGet (topOriginsMap this) k
      else if k = r then x else jsGet (topOriginsMap this) (k - 1))"
proof (induction this r x arbitrary: k rule: reorderTopOriginsMap.induct)
  case (1 this ranking replacementOrigin)
  show ?case
  proof (cases "ranking \<le> ORIGIN_RANKING_LAST")
    case True
    then show ?thesis
      using "1.IH"[OF True refl refl, of k]
      by (subst reorderTopOriginsMap.simps) (auto simp: Let_def jsGet_jsSet)
  next
    case False
    then show ?thesis
      by (subst reorderTopOriginsMap.simps) auto
  qed
qed

lemma reorder_counted:
  "reorderTopOriginsMap_counted this r x =
     (reorderTopOriginsMap this r x, Suc ORIGIN_RANKING_LAST - r)"
proof (induction this r x rule: reorderTopOriginsMap.induct)
  case (1 this ranking replacementOrigin)
  show ?case
  proof (cases "ranking \<le> ORIGIN_RANKING_LAST")
    case True
    then show ?thesis
      using "1.IH"[OF True refl refl]
      by (subst reorderTopOriginsMap_counted.simps, subst reorderTopOriginsMap.simps)
         (auto simp: Let_def)
  next
    case False
    then show ?thesis
      by (subst reorderTopOriginsMap_counted.simps, subst reorderTopOriginsMap.simps) auto
  qed
qed

lemma not_unoccupiedOrWeaker:
  "\<not> unoccupiedOrWeaker this k t \<longleftrightarrow>
     (\<exists>d. jsGet (topOriginsMap this) k = JSVal d \<and> t \<le> timeSpentAtOrigin (originVisitData d))"
  by (auto simp: unoccupiedOrWeaker_def split: jsval.splits)

lemma maybeUpdate_discard:
  "ORIGIN_RANKING_LAST <
     contenderBattlesOriginAt this ORIGIN_RANKING_FIRST (timeSpentAtOrigin (originVisitData c))
   \<Longrightarrow> maybeUpdateTopOriginsMap this c = this"
  by (simp add: maybeUpdateTopOriginsMap_def Let_def)

lemma maybeUpdate_get:
  assumes "isCurrentlyMonetized c" and "0 < timeSpentAtOrigin (originVisitData c)"
    and "R = contenderBattlesOriginAt this ORIGIN_RANKING_FIRST (timeSpentAtOrigin (originVisitData c))"
    and "R \<le> ORIGIN_RANKING_LAST"
  shows "jsGet (topOriginsMap (maybeUpdateTopOriginsMap this c)) k =
     (if (\<forall>d. jsGet (topOriginsMap this) R = JSVal d \<longrightarrow> origin c = origin d)
      then (if k = R then JSVal c else jsGet (topOriginsMap this) k)
      else (if k < R \<or> ORIGIN_RANKING_LAST < k then jsGet (topOriginsMap this) k
            else if k = R then JSVal c else jsGet (topOriginsMap this) (k - 1)))"
  using assms
  by (cases "jsGet (topOriginsMap this) R")
     (auto simp: maybeUpdateTopOriginsMap_def Let_def jsGet_jsSet reorder_get)

text \<open>
  C8, as it holds: both recursions are total functions (their termination is proved where
  they are defined, by the measure \<open>6 - ranking\<close>). From a starting rank \<open>r \<le> 6\<close>, hence
  from rank 1 where the search is always started, \<open>contenderBattlesOriginAt\<close> returns a
  rank between \<open>r\<close> and 6; from a rank above 5 it returns that rank at once, and whenever it
  does not return its own rank, the rank is at most 5 and the result is that of the search
  from \<open>r + 1\<close>. \<open>reorderTopOriginsMap\<close> performs \<open>6 - r\<close> shift steps (none from a rank
  above 5, where it returns the instance as it is), each on the next rank.
\<close>

theorem rank_recursions_terminate_within_bounds:
  "(r \<le> 6 \<longrightarrow> r \<le> contenderBattlesOriginAt this r t \<and> contenderBattlesOriginAt this r t \<le> 6)
   \<and> (5 < r \<longrightarrow> contenderBattlesOriginAt this r t = r)
   \<and> (contenderBattlesOriginAt this r t \<noteq> r \<longrightarrow>
        r \<le> 5 \<and> contenderBattlesOriginAt this r t = contenderBattlesOriginAt this (r + 1) t)
   \<and> reorderTopOriginsMap_counted this r x = (reorderTopOriginsMap this r x, 6 - r)
   \<and> (5 < r \<longrightarrow> reorderTopOriginsMap this r x = this)
   \<and> (r \<le> 5 \<longrightarrow> reorderTopOriginsMap this r x =
         reorderTopOriginsMap
           (this\<lparr>topOriginsMap := jsSet (topOriginsMap this) r x\<rparr>) (r + 1)
           (jsGet (topOriginsMap this) r))"
proof -
  have a: "r \<le> 6 \<longrightarrow> r \<le> contenderBattlesOriginAt this r t \<and> contenderBattlesOriginAt this r t \<le> 6"
    using contender_spec[of r this t] by (auto simp: ORIGIN_RANKING_LAST_def)
  have b: "5 < r \<longrightarrow> contenderBattlesOriginAt this r t = r"
    by (simp add: contender_stop ORIGIN_RANKING_LAST_def)
  have c: "contenderBattlesOriginAt this r t \<noteq> r \<longrightarrow>
        r \<le> 5 \<and> contenderBattlesOriginAt this r t = contenderBattlesOriginAt this (r + 1) t"
  proof (cases "ORIGIN_RANKING_LAST < r \<or> unoccupiedOrWeaker this r t")
    case True
    then show ?thesis by (simp add: contender_stop)
  next
    case False
    then have "r \<le> ORIGIN_RANKING_LAST" and "\<not> unoccupiedOrWeaker this r t" by auto
    then show ?thesis
      using contender_continue[of r this t] by (simp add: ORIGIN_RANKING_LAST_def)
  qed
  have d: "reorderTopOriginsMap_counted this r x = (reorderTopOriginsMap this r x, 6 - r)"
    by (simp add: reorder_counted ORIGIN_RANKING_LAST_def)
  have e: "5 < r \<longrightarrow> reorderTopOriginsMap this r x = this"
    by (subst reorderTopOriginsMap.simps) (simp add: ORIGIN_RANKING_LAST_def)
  have f: "r \<le> 5 \<longrightarrow> reorderTopOriginsMap this r x =
         reorderTopOriginsMap
           (this\<lparr>topOriginsMap := jsSet (topOriginsMap this) r x\<rparr>) (r + 1)
           (jsGet (topOriginsMap this) r)"
    by (subst reorderTopOriginsMap.simps) (simp add: ORIGIN_RANKING_LAST_def Let_def)
  from a b c d e f show ?thesis by blast
qed

theorem rank_recursions_terminate_within_bounds_witness:
  "contenderBattlesOriginAt (afterCandidates [site ''a'' True 10] :: unit AkitaOriginStats) 1 5 = 2
   \<and> snd (reorderTopOriginsMap_counted
            (afterCandidates [site ''a'' True 10] :: unit AkitaOriginStats) 1
            (JSVal (site ''b'' True 20))) = 5
   \<and> topOriginsMap (fst (reorderTopOriginsMap_counted
            (afterCandidates [site ''a'' True 10] :: unit AkitaOriginStats) 1
            (JSVal (site ''b'' True 20)))) =
       [(1, JSVal (site ''b'' True 20)), (2, JSVal (site ''a'' True 10)),
        (3, JSUndefined), (4, JSUndefined), (5, JSUndefined)]"
proof -
  have 1: "contenderBattlesOriginAt (afterCandidates [site ''a'' True 10] :: unit AkitaOriginStats) 1 5 = 2"
    by code_simp
  have 2: "topOriginsMap (reorderTopOriginsMap
            (afterCandidates [site ''a'' True 10] :: unit AkitaOriginStats) 1
            (JSVal (site ''b'' True 20))) =
       [(1, JSVal (site ''b'' True 20)), (2, JSVal (site ''a'' True 10)),
        (3, JSUndefined), (4, JSUndefined), (5, JSUndefined)]"
    by code_simp
  show ?thesis
    using rank_recursions_terminate_within_bounds
      [of 1 "afterCandidates [site ''a'' True 10] :: unit AkitaOriginStats" 5
          "JSVal (site ''b'' True 20)"] 1 2
    by simp
qed

text \<open>
  C8 as stated asks for a result between \<open>r\<close> and 6 from every starting rank \<open>r \<ge> 1\<close>.
  Started at rank 7 the search returns 7.
\<close>

theorem contenderBattlesOriginAt_beyond_6_counterexample:
  "(1::nat) \<le> 7 \<and>
   \<not> (7 \<le> contenderBattlesOriginAt (AkitaOriginStats_new :: unit AkitaOriginStats) 7 10
      \<and> contenderBattlesOriginAt (AkitaOriginStats_new :: unit AkitaOriginStats) 7 10 \<le> 6)"
  by code_simp

section \<open>Order on the board\<close>

lemma boardOrdered_maybeUpdate:
  assumes inv: "boardOrdered (topOriginsMap this)"
  shows "boardOrdered (topOriginsMap (maybeUpdateTopOriginsMap this c))"
proof -
  define t where "t = timeSpentAtOrigin (originVisitData c)"
  define R where "R = contenderBattlesOriginAt this ORIGIN_RANKING_FIRST t"
  define m where "m = topOriginsMap this"
  define m' where "m' = topOriginsMap (maybeUpdateTopOriginsMap this c)"
  show ?thesis
  proof (cases "isCurrentlyMonetized c \<and> 0 < t \<and> R \<le> ORIGIN_RANKING_LAST")
    case False
    then have "maybeUpdateTopOriginsMap this c = this"
      by (auto simp: maybeUpdateTopOriginsMap_def Let_def t_def R_def)
    with inv show ?thesis by simp
  next
    case True
    then have R5: "R \<le> 5" by (simp add: ORIGIN_RANKING_LAST_def)
    have R1: "1 \<le> R"
      using contender_spec[of ORIGIN_RANKING_FIRST this t]
      by (simp add: R_def ORIGIN_RANKING_FIRST_def)
    have before: "\<exists>d. jsGet m k = JSVal d \<and> t \<le> timeSpentAtOrigin (originVisitData d)"
      if "1 \<le> k" "k < R" for k
      using contender_spec[of ORIGIN_RANKING_FIRST this t] that
      by (simp add: R_def ORIGIN_RANKING_FIRST_def not_unoccupiedOrWeaker m_def)
    have at: "jsGet m R = JSVal d \<Longrightarrow> timeSpentAtOrigin (originVisitData d) < t" for d
      using contender_spec[of ORIGIN_RANKING_FIRST this t] True
      by (auto simp: R_def unoccupiedOrWeaker_def m_def)
    have get: "jsGet m' k =
       (if (\<forall>d. jsGet m R = JSVal d \<longrightarrow> origin c = origin d)
        then (if k = R then JSVal c else jsGet m k)
        else (if k < R \<or> 5 < k then jsGet m k
              else if k = R then JSVal c else jsGet m (k - 1)))" for k
    proof -
      have "R = contenderBattlesOriginAt this ORIGIN_RANKING_FIRST
                  (timeSpentAtOrigin (originVisitData c))"
        by (simp add: R_def t_def)
      from maybeUpdate_get[OF _ _ this, of k] True
      show ?thesis
        unfolding m'_def m_def t_def ORIGIN_RANKING_LAST_def by blast
    qed
    have i1: "\<And>k. truthy (jsGet m k) \<Longrightarrow> 1 \<le> k \<and> k \<le> 5"
      and i2: "\<And>i j. 1 \<le> i \<Longrightarrow> i \<le> j \<Longrightarrow> truthy (jsGet m j) \<Longrightarrow> truthy (jsGet m i)"
      and i3: "\<And>i j di dj. i \<le> j \<Longrightarrow> jsGet m i = JSVal di \<Longrightarrow> jsGet m j = JSVal dj \<Longrightarrow>
            timeSpentAtOrigin (originVisitData dj) \<le> timeSpentAtOrigin (originVisitData di)"
      using inv unfolding boardOrdered_def m_def by blast+
    have occ: "truthy v \<longleftrightarrow> (\<exists>d. v = JSVal d)" for v :: "AkitaOriginData jsval"
      by (cases v) auto
    show ?thesis
    proof (cases "\<forall>d. jsGet m R = JSVal d \<longrightarrow> origin c = origin d")
      case place: True
      have g: "jsGet m' k = (if k = R then JSVal c else jsGet m k)" for k
        using get[of k] place by simp
      have "truthy (jsGet m' k) \<Longrightarrow> 1 \<le> k \<and> k \<le> 5" for k
        using i1[of k] R1 R5 by (auto simp: g split: if_splits)
      moreover have "truthy (jsGet m' i)" if "1 \<le> i" "i \<le> j" "truthy (jsGet m' j)" for i j
      proof -
        consider "i = R" | "i < R" | "R < i" by linarith
        then show ?thesis
        proof cases
          case 1
          then show ?thesis by (simp add: g)
        next
          case 2
          with before[of i] that show ?thesis by (auto simp: g)
        next
          case 3
          with that have "truthy (jsGet m j)" by (auto simp: g split: if_splits)
          with i2[of i j] that 3 show ?thesis by (simp add: g)
        qed
      qed
      moreover have "timeSpentAtOrigin (originVisitData dj) \<le> timeSpentAtOrigin (originVisitData di)"
        if le: "i \<le> j" and "jsGet m' i = JSVal di" "jsGet m' j = JSVal dj" for i j di dj
      proof -
        note that = that le
        consider "i = j" | "i < j" "i = R" | "i < j" "j = R" | "i \<noteq> R" "j \<noteq> R"
          using le by linarith
        then show ?thesis
        proof cases
          case 1
          with that show ?thesis by simp
        next
          case 2
          then have mj: "jsGet m j = JSVal dj" and di: "di = c" using that by (auto simp: g)
          from mj have "truthy (jsGet m R)" using i2[of R j] R1 2 by simp
          then obtain d where d: "jsGet m R = JSVal d" by (auto simp: occ)
          from i3[OF _ d mj] 2 at[OF d] di show ?thesis by (simp add: t_def)
        next
          case 3
          then have mi: "jsGet m i = JSVal di" and dj: "dj = c" using that by (auto simp: g)
          from mi have "1 \<le> i" using i1[of i] by simp
          from before[OF this] 3 mi dj show ?thesis by (auto simp: t_def)
        next
          case 4
          with that i3[of i j di dj] show ?thesis by (simp add: g)
        qed
      qed
      ultimately show ?thesis unfolding boardOrdered_def m'_def[symmetric] by blast
    next
      case shift: False
      have g: "jsGet m' k = (if k < R \<or> 5 < k then jsGet m k
              else if k = R then JSVal c else jsGet m (k - 1))" for k
        using get[of k] shift by simp
      from shift obtain d where d: "jsGet m R = JSVal d" by blast
      have r1: "truthy (jsGet m' k) \<Longrightarrow> 1 \<le> k \<and> k \<le> 5" for k
        using i1[of k] R1 R5 by (auto simp: g split: if_splits)
      moreover have "truthy (jsGet m' i)" if "1 \<le> i" "i \<le> j" "truthy (jsGet m' j)" for i j
      proof -
        from r1[OF that(3)] have j5: "j \<le> 5" by simp
        consider "i = R" | "i < R" | "R < i" by linarith
        then show ?thesis
        proof cases
          case 1
          then show ?thesis using R5 by (simp add: g)
        next
          case 2
          with before[of i] that show ?thesis by (auto simp: g)
        next
          case 3
          with that j5 have "truthy (jsGet m (j - 1))" by (auto simp: g split: if_splits)
          with i2[of "i - 1" "j - 1"] that 3 R1 j5 show ?thesis by (auto simp: g)
        qed
      qed
      moreover have "timeSpentAtOrigin (originVisitData dj) \<le> timeSpentAtOrigin (originVisitData di)"
        if le: "i \<le> j" and "jsGet m' i = JSVal di" "jsGet m' j = JSVal dj" for i j di dj
      proof -
        note that = that le
        have i15: "1 \<le> i" "i \<le> 5" and j15: "1 \<le> j" "j \<le> 5"
          using r1[of i] r1[of j] that by simp_all
        consider "j < R" | "i < R" "j = R" | "i < R" "R < j" | "i = R" "j = R" | "i = R" "R < j"
          | "R < i"
          using le by linarith
        then show ?thesis
        proof cases
          case 1
          with that i3[of i j di dj] show ?thesis by (simp add: g)
        next
          case 2
          with that R5 have mi: "jsGet m i = JSVal di" and dj: "dj = c" by (auto simp: g)
          from before[OF i15(1) 2(1)] mi dj show ?thesis by (auto simp: t_def)
        next
          case 3
          with that j15 have mi: "jsGet m i = JSVal di" and mj: "jsGet m (j - 1) = JSVal dj"
            by (auto simp: g)
          from 3 have "i \<le> j - 1" by simp
          from i3[OF this mi mj] show ?thesis by simp
        next
          case 4
          with that R5 show ?thesis by (auto simp: g)
        next
          case 5
          with that j15 R5 have di: "di = c" and mj: "jsGet m (j - 1) = JSVal dj"
            by (auto simp: g)
          from 5 have "R \<le> j - 1" by simp
          from i3[OF this d mj] at[OF d] di show ?thesis by (simp add: t_def)
        next
          case 6
          with that i15 j15 have mi: "jsGet m (i - 1) = JSVal di" and mj: "jsGet m (j - 1) = JSVal dj"
            by (auto simp: g)
          from le have "i - 1 \<le> j - 1" by simp
          from i3[OF this mi mj] show ?thesis by simp
        qed
      qed
      ultimately show ?thesis unfolding boardOrdered_def m'_def[symmetric] by blast
    qed
  qed
qed

lemma boardOrdered_afterCandidates:
  "boardOrdered (topOriginsMap (afterCandidates cs :: 'a AkitaOriginStats))"
proof (induction cs rule: rev_induct)
  case Nil
  show ?case
    by (simp add: afterCandidates_def AkitaOriginStats_new_def boardOrdered_def)
next
  case (snoc c cs)
  then show ?case
    by (simp add: afterCandidates_def boardOrdered_maybeUpdate)
qed

text \<open>
  C4: for a monetized candidate \<open>c\<close> with positive time-spent \<open>t\<close>, the rank \<open>R\<close> that
  \<open>contenderBattlesOriginAt\<close> computes from rank 1 lies between 1 and 6; if it is at most 5
  it is unoccupied or holds a strictly smaller time-spent value, no rank from 1 below \<open>R\<close>
  is so, and the candidate stands at \<open>R\<close> afterwards. No rank in 1..5 is unoccupied or
  weaker exactly when \<open>R = 6\<close>, and then the instance is unchanged. On every ordered
  board an incumbent whose time-spent equals \<open>t\<close> is found at its rank afterwards. The
  board of a new instance is ordered and \<open>maybeUpdateTopOriginsMap\<close>, the one operation
  that writes to the board, keeps it ordered, so the boards that the calls build from the
  empty one are ordered, whatever the other fields of the instance hold.
\<close>

theorem placement_rank_is_first_unoccupied_or_weaker:
  assumes mon: "isCurrentlyMonetized c"
    and pos: "0 < timeSpentAtOrigin (originVisitData c)"
    and t: "t = timeSpentAtOrigin (originVisitData c)"
    and R: "R = contenderBattlesOriginAt this ORIGIN_RANKING_FIRST t"
  shows "1 \<le> R \<and> R \<le> 6
     \<and> (R \<le> 5 \<longrightarrow> unoccupiedOrWeaker this R t)
     \<and> (\<forall>k. 1 \<le> k \<and> k < R \<longrightarrow> \<not> unoccupiedOrWeaker this k t)
     \<and> (R \<le> 5 \<longrightarrow> jsGet (topOriginsMap (maybeUpdateTopOriginsMap this c)) R = JSVal c)
     \<and> ((\<forall>k. 1 \<le> k \<and> k \<le> 5 \<longrightarrow> \<not> unoccupiedOrWeaker this k t) \<longleftrightarrow> R = 6)
     \<and> (R = 6 \<longrightarrow> maybeUpdateTopOriginsMap this c = this)
     \<and> (\<forall>k d. boardOrdered (topOriginsMap this) \<and> jsGet (topOriginsMap this) k = JSVal d
            \<and> timeSpentAtOrigin (originVisitData d) = t \<longrightarrow>
          jsGet (topOriginsMap (maybeUpdateTopOriginsMap this c)) k = JSVal d)
     \<and> boardOrdered (topOriginsMap (AkitaOriginStats_new :: 'a AkitaOriginStats))
     \<and> (boardOrdered (topOriginsMap this) \<longrightarrow>
          boardOrdered (topOriginsMap (maybeUpdateTopOriginsMap this c)))
     \<and> (\<forall>cs. boardOrdered (topOriginsMap (afterCandidates cs :: 'a AkitaOriginStats)))"
proof -
  note spec = contender_spec[of ORIGIN_RANKING_FIRST this t, folded R,
      unfolded ORIGIN_RANKING_FIRST_def ORIGIN_RANKING_LAST_def]
  have R': "R = contenderBattlesOriginAt this ORIGIN_RANKING_FIRST
                  (timeSpentAtOrigin (originVisitData c))"
    using R t by simp
  have bounds: "1 \<le> R \<and> R \<le> 6" using spec by simp
  have opn: "R \<le> 5 \<longrightarrow> unoccupiedOrWeaker this R t" using spec by simp
  have first: "\<forall>k. 1 \<le> k \<and> k < R \<longrightarrow> \<not> unoccupiedOrWeaker this k t" using spec by simp
  have placed: "R \<le> 5 \<longrightarrow> jsGet (topOriginsMap (maybeUpdateTopOriginsMap this c)) R = JSVal c"
  proof
    assume "R \<le> 5"
    then have le: "R \<le> ORIGIN_RANKING_LAST" by (simp add: ORIGIN_RANKING_LAST_def)
    then have "\<not> ORIGIN_RANKING_LAST < R" by simp
    with maybeUpdate_get[OF mon pos R' le, of R] show
      "jsGet (topOriginsMap (maybeUpdateTopOriginsMap this c)) R = JSVal c"
      by (simp split: if_splits)
  qed
  have none: "(\<forall>k. 1 \<le> k \<and> k \<le> 5 \<longrightarrow> \<not> unoccupiedOrWeaker this k t) \<longleftrightarrow> R = 6"
  proof
    assume a: "\<forall>k. 1 \<le> k \<and> k \<le> 5 \<longrightarrow> \<not> unoccupiedOrWeaker this k t"
    show "R = 6"
    proof (rule ccontr)
      assume "R \<noteq> 6"
      with bounds have "1 \<le> R" "R \<le> 5" by auto
      with a opn show False by blast
    qed
  next
    assume "R = 6"
    with first show "\<forall>k. 1 \<le> k \<and> k \<le> 5 \<longrightarrow> \<not> unoccupiedOrWeaker this k t" by auto
  qed
  have discard: "R = 6 \<longrightarrow> maybeUpdateTopOriginsMap this c = this"
    using maybeUpdate_discard[of this c] R' by (simp add: ORIGIN_RANKING_LAST_def)
  have tie: "jsGet (topOriginsMap (maybeUpdateTopOriginsMap this c)) k = JSVal d"
    if inv: "boardOrdered (topOriginsMap this)" and inc: "jsGet (topOriginsMap this) k = JSVal d"
      and eq: "timeSpentAtOrigin (originVisitData d) = t" for k d
  proof -
    have k15: "1 \<le> k" "k \<le> 5"
      using inv inc unfolding boardOrdered_def by (metis truthy.simps(3))+
    have "k < R"
    proof (rule ccontr)
      assume "\<not> k < R"
      then have Rk: "R \<le> k" by simp
      with k15 have R5: "R \<le> 5" by simp
      have "truthy (jsGet (topOriginsMap this) R)"
        using inv inc Rk bounds unfolding boardOrdered_def by (metis truthy.simps(3))
      then obtain d' where d': "jsGet (topOriginsMap this) R = JSVal d'"
        by (cases "jsGet (topOriginsMap this) R") auto
      with inv inc Rk have "timeSpentAtOrigin (originVisitData d) \<le> timeSpentAtOrigin (originVisitData d')"
        unfolding boardOrdered_def by blast
      moreover from opn R5 d' have "timeSpentAtOrigin (originVisitData d') < t"
        by (simp add: unoccupiedOrWeaker_def)
      ultimately show False using eq by simp
    qed
    show ?thesis
    proof (cases "R \<le> ORIGIN_RANKING_LAST")
      case True
      from maybeUpdate_get[OF mon pos R' True, of k] \<open>k < R\<close> inc show ?thesis
        by (simp split: if_splits)
    next
      case False
      then have "maybeUpdateTopOriginsMap this c = this"
        using maybeUpdate_discard[of this c] R' by simp
      with inc show ?thesis by simp
    qed
  qed
  have empty: "boardOrdered (topOriginsMap (AkitaOriginStats_new :: 'a AkitaOriginStats))"
    by (simp add: AkitaOriginStats_new_def boardOrdered_def)
  have kept: "boardOrdered (topOriginsMap this) \<longrightarrow>
          boardOrdered (topOriginsMap (maybeUpdateTopOriginsMap this c))"
    by (simp add: boardOrdered_maybeUpdate)
  have built: "\<forall>cs. boardOrdered (topOriginsMap (afterCandidates cs :: 'a AkitaOriginStats))"
    by (simp add: boardOrdered_afterCandidates)
  from bounds opn first placed none discard tie empty kept built show ?thesis by blast
qed

theorem placement_rank_is_first_unoccupied_or_weaker_witness:
  "contenderBattlesOriginAt
      ((afterCandidates [site ''a'' True 30, site ''b'' True 20] :: unit AkitaOriginStats)
         \<lparr>totalTimeSpent := Num 50, totalVisits := Num 2\<rparr>) 1 20 = 3
   \<and> topOriginsMap (maybeUpdateTopOriginsMap
        ((afterCandidates [site ''a'' True 30, site ''b'' True 20] :: unit AkitaOriginStats)
           \<lparr>totalTimeSpent := Num 50, totalVisits := Num 2\<rparr>)
        (site ''c'' True 20)) =
      [(1, JSVal (site ''a'' True 30)), (2, JSVal (site ''b'' True 20)),
       (3, JSVal (site ''c'' True 20))]
   \<and> jsGet (topOriginsMap (maybeUpdateTopOriginsMap
        ((afterCandidates [site ''a'' True 30, site ''b'' True 20] :: unit AkitaOriginStats)
           \<lparr>totalTimeSpent := Num 50, totalVisits := Num 2\<rparr>)
        (site ''c'' True 20))) 2 = JSVal (site ''b'' True 20)"
proof -
  let ?s = "(afterCandidates [site ''a'' True 30, site ''b'' True 20] :: unit AkitaOriginStats)
         \<lparr>totalTimeSpent := Num 50, totalVisits := Num 2\<rparr>"
  have R: "3 = contenderBattlesOriginAt ?s ORIGIN_RANKING_FIRST 20"
    by code_simp
  have inc: "jsGet (topOriginsMap ?s) 2 = JSVal (site ''b'' True 20)"
    by code_simp
  have ord: "boardOrdered (topOriginsMap ?s)"
    by (simp add: boardOrdered_afterCandidates)
  have res: "topOriginsMap (maybeUpdateTopOriginsMap ?s (site ''c'' True 20)) =
      [(1, JSVal (site ''a'' True 30)), (2, JSVal (site ''b'' True 20)),
       (3, JSVal (site ''c'' True 20))]"
    by code_simp
  note all = placement_rank_is_first_unoccupied_or_weaker
      [of "site ''c'' True 20" 20 3 ?s, OF _ _ _ R]
  note tie = all[THEN conjunct2, THEN conjunct2, THEN conjunct2, THEN conjunct2,
      THEN conjunct2, THEN conjunct2, THEN conjunct2, THEN conjunct1, rule_format]
  have "jsGet (topOriginsMap (maybeUpdateTopOriginsMap ?s (site ''c'' True 20))) 2
          = JSVal (site ''b'' True 20)"
  proof (rule tie)
    show "isCurrentlyMonetized (site ''c'' True 20)" by simp
    show "0 < timeSpentAtOrigin (originVisitData (site ''c'' True 20))" by simp
    show "20 = timeSpentAtOrigin (originVisitData (site ''c'' True 20))" by simp
    show "boardOrdered (topOriginsMap ?s) \<and>
          jsGet (topOriginsMap ?s) 2 = JSVal (site ''b'' True 20) \<and>
          timeSpentAtOrigin (originVisitData (site ''b'' True 20)) = 20"
      using ord inc by simp
  qed
  with R res show ?thesis by (simp add: ORIGIN_RANKING_FIRST_def)
qed

text \<open>
  C5: when the placement rank \<open>R \<le> 5\<close> of a monetized candidate with positive time-spent
  holds a different origin, the candidate stands at \<open>R\<close> afterwards, every rank from
  \<open>R + 1\<close> to 5 holds what the rank above it held, and the ranks before \<open>R\<close> and beyond 5
  are as before, so that what stood at rank 5 is on the board no more. Five distinct
  monetized origins with time-spent 10, 20, 30, 40, 50, submitted in that order, give the
  ranks 50, 40, 30, 20, 10; a sixth one with 25 then gives 50, 40, 30, 25, 20, and the
  origin with 10 is gone.
\<close>

theorem insertion_shifts_lower_ranks_down:
  "(isCurrentlyMonetized c \<and> 0 < timeSpentAtOrigin (originVisitData c)
      \<and> R = contenderBattlesOriginAt this ORIGIN_RANKING_FIRST
               (timeSpentAtOrigin (originVisitData c))
      \<and> R \<le> 5 \<and> jsGet (topOriginsMap this) R = JSVal d \<and> origin d \<noteq> origin c
    \<longrightarrow> jsGet (topOriginsMap (maybeUpdateTopOriginsMap this c)) R = JSVal c
        \<and> (\<forall>k. R < k \<and> k \<le> 5 \<longrightarrow>
              jsGet (topOriginsMap (maybeUpdateTopOriginsMap this c)) k
                = jsGet (topOriginsMap this) (k - 1))
        \<and> (\<forall>k. k < R \<or> 5 < k \<longrightarrow>
              jsGet (topOriginsMap (maybeUpdateTopOriginsMap this c)) k
                = jsGet (topOriginsMap this) k))
   \<and> topOriginsMap (afterCandidates
        [site ''a'' True 10, site ''b'' True 20, site ''c'' True 30, site ''d'' True 40,
         site ''e'' True 50] :: 'a AkitaOriginStats) =
       [(1, JSVal (site ''e'' True 50)), (2, JSVal (site ''d'' True 40)),
        (3, JSVal (site ''c'' True 30)), (4, JSVal (site ''b'' True 20)),
        (5, JSVal (site ''a'' True 10))]
   \<and> topOriginsMap (afterCandidates
        [site ''a'' True 10, site ''b'' True 20, site ''c'' True 30, site ''d'' True 40,
         site ''e'' True 50, site ''f'' True 25] :: 'a AkitaOriginStats) =
       [(1, JSVal (site ''e'' True 50)), (2, JSVal (site ''d'' True 40)),
        (3, JSVal (site ''c'' True 30)), (4, JSVal (site ''f'' True 25)),
        (5, JSVal (site ''b'' True 20))]"
proof -
  have general: "jsGet (topOriginsMap (maybeUpdateTopOriginsMap this c)) k =
      (if k < R \<or> 5 < k then jsGet (topOriginsMap this) k
       else if k = R then JSVal c else jsGet (topOriginsMap this) (k - 1))"
    if mon: "isCurrentlyMonetized c" and pos: "0 < timeSpentAtOrigin (originVisitData c)"
      and R: "R = contenderBattlesOriginAt this ORIGIN_RANKING_FIRST
               (timeSpentAtOrigin (originVisitData c))"
      and R5: "R \<le> 5" and d: "jsGet (topOriginsMap this) R = JSVal d"
      and other: "origin d \<noteq> origin c" for k
  proof -
    from R5 have le: "R \<le> ORIGIN_RANKING_LAST" by (simp add: ORIGIN_RANKING_LAST_def)
    from d other have "\<not> (\<forall>d. jsGet (topOriginsMap this) R = JSVal d \<longrightarrow> origin c = origin d)"
      by auto
    with maybeUpdate_get[OF mon pos R le, of k] show ?thesis
      by (simp add: ORIGIN_RANKING_LAST_def)
  qed
  have five: "topOriginsMap (afterCandidates
        [site ''a'' True 10, site ''b'' True 20, site ''c'' True 30, site ''d'' True 40,
         site ''e'' True 50] :: 'a AkitaOriginStats) =
       [(1, JSVal (site ''e'' True 50)), (2, JSVal (site ''d'' True 40)),
        (3, JSVal (site ''c'' True 30)), (4, JSVal (site ''b'' True 20)),
        (5, JSVal (site ''a'' True 10))]"
    by code_simp
  have six: "topOriginsMap (afterCandidates
        [site ''a'' True 10, site ''b'' True 20, site ''c'' True 30, site ''d'' True 40,
         site ''e'' True 50, site ''f'' True 25] :: 'a AkitaOriginStats) =
       [(1, JSVal (site ''e'' True 50)), (2, JSVal (site ''d'' True 40)),
        (3, JSVal (site ''c'' True 30)), (4, JSVal (site ''f'' True 25)),
        (5, JSVal (site ''b'' True 20))]"
    by code_simp
  have gen: "isCurrentlyMonetized c \<and> 0 < timeSpentAtOrigin (originVisitData c)
      \<and> R = contenderBattlesOriginAt this ORIGIN_RANKING_FIRST
               (timeSpentAtOrigin (originVisitData c))
      \<and> R \<le> 5 \<and> jsGet (topOriginsMap this) R = JSVal d \<and> origin d \<noteq> origin c
    \<longrightarrow> jsGet (topOriginsMap (maybeUpdateTopOriginsMap this c)) R = JSVal c
        \<and> (\<forall>k. R < k \<and> k \<le> 5 \<longrightarrow>
              jsGet (topOriginsMap (maybeUpdateTopOriginsMap this c)) k
                = jsGet (topOriginsMap this) (k - 1))
        \<and> (\<forall>k. k < R \<or> 5 < k \<longrightarrow>
              jsGet (topOriginsMap (maybeUpdateTopOriginsMap this c)) k
                = jsGet (topOriginsMap this) k)"
  proof (intro impI, elim conjE)
    assume a: "isCurrentlyMonetized c" "0 < timeSpentAtOrigin (originVisitData c)"
      "R = contenderBattlesOriginAt this ORIGIN_RANKING_FIRST
               (timeSpentAtOrigin (originVisitData c))"
      "R \<le> 5" "jsGet (topOriginsMap this) R = JSVal d" "origin d \<noteq> origin c"
    note g = general[OF a]
    have "jsGet (topOriginsMap (maybeUpdateTopOriginsMap this c)) R = JSVal c"
      using g[of R] a(4) by simp
    moreover have "\<forall>k. R < k \<and> k \<le> 5 \<longrightarrow>
              jsGet (topOriginsMap (maybeUpdateTopOriginsMap this c)) k
                = jsGet (topOriginsMap this) (k - 1)"
      using g by simp
    moreover have "\<forall>k. k < R \<or> 5 < k \<longrightarrow>
              jsGet (topOriginsMap (maybeUpdateTopOriginsMap this c)) k
                = jsGet (topOriginsMap this) k"
      using g by simp
    ultimately show "jsGet (topOriginsMap (maybeUpdateTopOriginsMap this c)) R = JSVal c
        \<and> (\<forall>k. R < k \<and> k \<le> 5 \<longrightarrow>
              jsGet (topOriginsMap (maybeUpdateTopOriginsMap this c)) k
                = jsGet (topOriginsMap this) (k - 1))
        \<and> (\<forall>k. k < R \<or> 5 < k \<longrightarrow>
              jsGet (topOriginsMap (maybeUpdateTopOriginsMap this c)) k
                = jsGet (topOriginsMap this) k)"
      by blast
  qed
  from gen five six show ?thesis by blast
qed

theorem insertion_shifts_lower_ranks_down_witness:
  "jsGet (topOriginsMap (maybeUpdateTopOriginsMap
      (afterCandidates [site ''a'' True 10, site ''b'' True 20, site ''c'' True 30,
         site ''d'' True 40, site ''e'' True 50] :: unit AkitaOriginStats)
      (site ''f'' True 25))) 4 = JSVal (site ''f'' True 25)
   \<and> jsGet (topOriginsMap (maybeUpdateTopOriginsMap
      (afterCandidates [site ''a'' True 10, site ''b'' True 20, site ''c'' True 30,
         site ''d'' True 40, site ''e'' True 50] :: unit AkitaOriginStats)
      (site ''f'' True 25))) 5 = JSVal (site ''b'' True 20)
   \<and> jsGet (topOriginsMap (maybeUpdateTopOriginsMap
      (afterCandidates [site ''a'' True 10, site ''b'' True 20, site ''c'' True 30,
         site ''d'' True 40, site ''e'' True 50] :: unit AkitaOriginStats)
      (site ''f'' True 25))) 6 = JSUndefined"
proof -
  let ?s = "afterCandidates [site ''a'' True 10, site ''b'' True 20, site ''c'' True 30,
         site ''d'' True 40, site ''e'' True 50] :: unit AkitaOriginStats"
  have R: "4 = contenderBattlesOriginAt ?s ORIGIN_RANKING_FIRST 25"
    by code_simp
  have m: "topOriginsMap ?s =
       [(1, JSVal (site ''e'' True 50)), (2, JSVal (site ''d'' True 40)),
        (3, JSVal (site ''c'' True 30)), (4, JSVal (site ''b'' True 20)),
        (5, JSVal (site ''a'' True 10))]"
    by code_simp
  have d: "jsGet (topOriginsMap ?s) 4 = JSVal (site ''b'' True 20)"
    by (simp add: m)
  have g: "jsGet (topOriginsMap (maybeUpdateTopOriginsMap ?s (site ''f'' True 25))) 4
             = JSVal (site ''f'' True 25)
        \<and> (\<forall>k. 4 < k \<and> k \<le> 5 \<longrightarrow>
              jsGet (topOriginsMap (maybeUpdateTopOriginsMap ?s (site ''f'' True 25))) k
                = jsGet (topOriginsMap ?s) (k - 1))
        \<and> (\<forall>k. k < 4 \<or> 5 < k \<longrightarrow>
              jsGet (topOriginsMap (maybeUpdateTopOriginsMap ?s (site ''f'' True 25))) k
                = jsGet (topOriginsMap ?s) k)"
    using insertion_shifts_lower_ranks_down
      [of "site ''f'' True 25" 4 ?s "site ''b'' True 20", THEN conjunct1] R d
    by simp
  from g have "jsGet (topOriginsMap (maybeUpdateTopOriginsMap ?s (site ''f'' True 25))) 5
                = jsGet (topOriginsMap ?s) (5 - 1)"
    by (intro g[THEN conjunct2, THEN conjunct1, rule_format]) simp
  moreover from g have "jsGet (topOriginsMap (maybeUpdateTopOriginsMap ?s (site ''f'' True 25))) 6
                = jsGet (topOriginsMap ?s) 6"
    by (intro g[THEN conjunct2, THEN conjunct2, rule_format]) simp
  ultimately show ?thesis using g by (simp add: m)
qed

section \<open>One origin at two ranks\<close>

text \<open>
  C1: after any sequence of \<open>maybeUpdateTopOriginsMap\<close> calls from the empty board the
  time-spent values do not increase with the rank (\<open>boardOrdered_afterCandidates\<close>
  above), but an origin can hold two ranks at once. Origin \<open>a\<close> with 10, then origin
  \<open>b\<close> with 20, then origin \<open>a\<close> again with 25: the search stops at rank 1, which holds
  \<open>b\<close>, so the cascade runs and the older entry of \<open>a\<close> moves to rank 3.
\<close>

theorem overtaking_origin_occupies_two_ranks:
  "topOriginsMap (afterCandidates
      [site ''a'' True 10, site ''b'' True 20, site ''a'' True 25] :: 'a AkitaOriginStats) =
   [(1, JSVal (site ''a'' True 25)), (2, JSVal (site ''b'' True 20)),
    (3, JSVal (site ''a'' True 10)), (4, JSUndefined), (5, JSUndefined)]"
  by code_simp


text \<open>
  C2: an origin that holds rank 1 with time-spent 10 and is submitted again, monetized,
  with the same value does not beat its own entry, so the search goes on to rank 2, which is
  unoccupied, and the candidate is stored there: the board has a second entry.
\<close>

theorem resubmitting_same_time_adds_second_entry:
  "topOriginsMap (afterCandidates [site ''a'' True 10] :: 'a AkitaOriginStats) =
     [(1, JSVal (site ''a'' True 10))]
   \<and> topOriginsMap (maybeUpdateTopOriginsMap
        (afterCandidates [site ''a'' True 10] :: 'a AkitaOriginStats) (site ''a'' True 10)) =
     [(1, JSVal (site ''a'' True 10)), (2, JSVal (site ''a'' True 10))]"
  by code_simp

section \<open>Reconstruction\<close>

lemma set_jsKeys: "set (jsKeys obj) = fst ` set obj"
  by (simp add: jsKeys_def)

lemma jsSet_keys: "fst ` set (jsSet obj k v) = insert k (fst ` set obj)"
  by (induction obj) (force split: if_splits)+

lemma jsGet_absent: "k \<notin> fst ` set obj \<Longrightarrow> jsGet obj k = JSUndefined"
  by (induction obj) auto

lemma copyOriginEntries_get:
  "jsGet (copyOriginEntries f src ks dst) k =
     (if k \<in> set ks
      then (case jsGet src k of JSVal d \<Rightarrow> JSVal (f d) | _ \<Rightarrow> jsGet dst k)
      else jsGet dst k)"
  by (induction ks arbitrary: dst) (auto simp: jsGet_jsSet split: jsval.splits)

lemma copyOriginEntries_keys:
  "fst ` set (copyOriginEntries f src ks dst) =
     fst ` set dst \<union> {k \<in> set ks. truthy (jsGet src k)}"
proof (induction ks arbitrary: dst)
  case Nil
  show ?case by simp
next
  case (Cons k ks)
  show ?case
    by (cases "jsGet src k") (auto simp: Cons.IH jsSet_keys)
qed

lemma copyAssetEntries_result:
  "copyAssetEntries f src ks dst = Inr r \<Longrightarrow>
     (\<forall>k. jsGet r k =
        (if k \<in> set ks then (case f (jsGet src k) of Inr a \<Rightarrow> JSVal a | Inl e \<Rightarrow> JSUndefined)
         else jsGet dst k))
     \<and> (\<forall>k \<in> set ks. \<exists>a. f (jsGet src k) = Inr a)
     \<and> fst ` set r = fst ` set dst \<union> set ks"
proof (induction ks arbitrary: dst)
  case Nil
  then show ?case by simp
next
  case (Cons k ks)
  from Cons.prems obtain a where a: "f (jsGet src k) = Inr a"
    and rest: "copyAssetEntries f src ks (jsSet dst k (JSVal a)) = Inr r"
    by (auto split: sum.splits)
  from Cons.IH[OF rest] a show ?case
    by (auto simp: jsGet_jsSet jsSet_keys)
qed

lemma copyAssetEntries_fails:
  "k \<in> set ks \<Longrightarrow> f (jsGet src k) = Inl e \<Longrightarrow> \<exists>e'. copyAssetEntries f src ks dst = Inl e'"
  by (induction ks arbitrary: dst) (auto split: sum.splits)

lemma copyAssetEntries_succeeds:
  "\<forall>k \<in> set ks. \<exists>a. f (jsGet src k) = Inr a \<Longrightarrow> \<exists>r. copyAssetEntries f src ks dst = Inr r"
  by (induction ks arbitrary: dst) (auto split: sum.splits)

lemma fromObject_Inr:
  "fromObject f g obj = Inr new \<longleftrightarrow>
     (\<exists>assets. copyAssetEntries g (totalSentAssetsMap obj) (jsKeys (totalSentAssetsMap obj)) []
                 = Inr assets
        \<and> new = \<lparr> totalTimeSpent = totalTimeSpent obj,
                   totalMonetizedTimeSpent = totalMonetizedTimeSpent obj,
                   totalVisits = totalVisits obj,
                   totalMonetizedVisits = totalMonetizedVisits obj,
                   topOriginsMap = copyOriginEntries f (topOriginsMap obj)
                                     (jsKeys (topOriginsMap obj)) [],
                   needsSomeLoveMap = copyOriginEntries f (needsSomeLoveMap obj)
                                        (jsKeys (needsSomeLoveMap obj)) [],
                   totalSentAssetsMap = assets \<rparr>)"
  by (auto simp: fromObject_def Let_def AkitaOriginStats_new_def split: sum.splits)

lemma fromObject_Inl:
  "(\<exists>e. fromObject f g obj = Inl e) \<longleftrightarrow>
     (\<exists>e. copyAssetEntries g (totalSentAssetsMap obj) (jsKeys (totalSentAssetsMap obj)) [] = Inl e)"
  by (auto simp: fromObject_def Let_def AkitaOriginStats_new_def split: sum.splits)

lemma copied_origin_slot:
  "jsGet (copyOriginEntries f src (jsKeys src) []) k =
     (case jsGet src k of JSVal d \<Rightarrow> JSVal (f d) | _ \<Rightarrow> JSUndefined)"
proof (cases "k \<in> fst ` set src")
  case True
  then show ?thesis
    by (simp add: copyOriginEntries_get set_jsKeys split: jsval.splits)
next
  case False
  then show ?thesis
    by (simp add: copyOriginEntries_get set_jsKeys jsGet_absent split: jsval.splits)
qed

lemma copied_origin_keys:
  "k \<in> set (jsKeys (copyOriginEntries f src (jsKeys src) [])) \<longleftrightarrow> truthy (jsGet src k)"
proof -
  have "truthy (jsGet src k) \<Longrightarrow> k \<in> fst ` set src"
    using jsGet_absent[of k src] by (cases "k \<in> fst ` set src") auto
  then show ?thesis
    by (auto simp: set_jsKeys copyOriginEntries_keys)
qed

text \<open>
  C10: in the instance that \<open>fromObject\<close> returns, a rank of \<open>topOriginsMap\<close> (and a key
  of \<open>needsSomeLoveMap\<close>) holds the reconstruction of the entry that the input has there
  when that entry is an object, and is not a key at all when the entry is falsy. The keys of
  \<open>totalSentAssetsMap\<close> are all the keys of the input's map, and each holds what
  \<open>WebMonetizationAsset.fromObject\<close> made of the input's entry, whatever that entry is. So
  a board slot that holds \<open>null\<close> reads \<open>undefined\<close> after the reconstruction and is no
  key of the board.
\<close>

theorem fromObject_guards_board_entries_not_asset_entries:
  "fromObject originFromObject assetFromObject obj = Inr new \<longrightarrow>
     (\<forall>k. jsGet (topOriginsMap new) k =
            (case jsGet (topOriginsMap obj) k of
               JSVal d \<Rightarrow> JSVal (originFromObject d) | _ \<Rightarrow> JSUndefined))
     \<and> (\<forall>k. k \<in> set (jsKeys (topOriginsMap new)) \<longleftrightarrow> truthy (jsGet (topOriginsMap obj) k))
     \<and> (\<forall>k. jsGet (needsSomeLoveMap new) k =
            (case jsGet (needsSomeLoveMap obj) k of
               JSVal d \<Rightarrow> JSVal (originFromObject d) | _ \<Rightarrow> JSUndefined))
     \<and> (\<forall>k. k \<in> set (jsKeys (needsSomeLoveMap new))
               \<longleftrightarrow> truthy (jsGet (needsSomeLoveMap obj) k))
     \<and> set (jsKeys (totalSentAssetsMap new)) = set (jsKeys (totalSentAssetsMap obj))
     \<and> (\<forall>k \<in> set (jsKeys (totalSentAssetsMap obj)).
           \<exists>a. assetFromObject (jsGet (totalSentAssetsMap obj) k) = Inr a
                \<and> jsGet (totalSentAssetsMap new) k = JSVal a)
     \<and> (\<forall>k. jsGet (topOriginsMap obj) k = JSNull \<longrightarrow>
            jsGet (topOriginsMap new) k = JSUndefined
            \<and> k \<notin> set (jsKeys (topOriginsMap new)))"
proof
  assume "fromObject originFromObject assetFromObject obj = Inr new"
  then obtain assets where
    assets: "copyAssetEntries assetFromObject (totalSentAssetsMap obj)
               (jsKeys (totalSentAssetsMap obj)) [] = Inr assets"
    and top: "topOriginsMap new = copyOriginEntries originFromObject (topOriginsMap obj)
                                     (jsKeys (topOriginsMap obj)) []"
    and love: "needsSomeLoveMap new = copyOriginEntries originFromObject (needsSomeLoveMap obj)
                                        (jsKeys (needsSomeLoveMap obj)) []"
    and sent: "totalSentAssetsMap new = assets"
    by (auto simp: fromObject_Inr)
  note res = copyAssetEntries_result[OF assets]
  have a: "\<forall>k. jsGet (topOriginsMap new) k =
            (case jsGet (topOriginsMap obj) k of
               JSVal d \<Rightarrow> JSVal (originFromObject d) | _ \<Rightarrow> JSUndefined)"
    by (simp add: top copied_origin_slot)
  have b: "\<forall>k. k \<in> set (jsKeys (topOriginsMap new)) \<longleftrightarrow> truthy (jsGet (topOriginsMap obj) k)"
    by (simp add: top copied_origin_keys)
  have c: "\<forall>k. jsGet (needsSomeLoveMap new) k =
            (case jsGet (needsSomeLoveMap obj) k of
               JSVal d \<Rightarrow> JSVal (originFromObject d) | _ \<Rightarrow> JSUndefined)"
    by (simp add: love copied_origin_slot)
  have d: "\<forall>k. k \<in> set (jsKeys (needsSomeLoveMap new))
               \<longleftrightarrow> truthy (jsGet (needsSomeLoveMap obj) k)"
    by (simp add: love copied_origin_keys)
  have e: "set (jsKeys (totalSentAssetsMap new)) = set (jsKeys (totalSentAssetsMap obj))"
    using res by (simp add: sent set_jsKeys)
  have f: "\<forall>k \<in> set (jsKeys (totalSentAssetsMap obj)).
           \<exists>a. assetFromObject (jsGet (totalSentAssetsMap obj) k) = Inr a
                \<and> jsGet (totalSentAssetsMap new) k = JSVal a"
  proof
    fix k assume k: "k \<in> set (jsKeys (totalSentAssetsMap obj))"
    with res obtain a where "assetFromObject (jsGet (totalSentAssetsMap obj) k) = Inr a"
      by blast
    moreover from res k have "jsGet assets k =
        (case assetFromObject (jsGet (totalSentAssetsMap obj) k) of
           Inr a \<Rightarrow> JSVal a | Inl e \<Rightarrow> JSUndefined)"
      by simp
    ultimately show "\<exists>a. assetFromObject (jsGet (totalSentAssetsMap obj) k) = Inr a
                \<and> jsGet (totalSentAssetsMap new) k = JSVal a"
      by (simp add: sent)
  qed
  have g: "\<forall>k. jsGet (topOriginsMap obj) k = JSNull \<longrightarrow>
            jsGet (topOriginsMap new) k = JSUndefined
            \<and> k \<notin> set (jsKeys (topOriginsMap new))"
    using a b by simp
  from a b c d e f g show
    "(\<forall>k. jsGet (topOriginsMap new) k =
            (case jsGet (topOriginsMap obj) k of
               JSVal d \<Rightarrow> JSVal (originFromObject d) | _ \<Rightarrow> JSUndefined))
     \<and> (\<forall>k. k \<in> set (jsKeys (topOriginsMap new)) \<longleftrightarrow> truthy (jsGet (topOriginsMap obj) k))
     \<and> (\<forall>k. jsGet (needsSomeLoveMap new) k =
            (case jsGet (needsSomeLoveMap obj) k of
               JSVal d \<Rightarrow> JSVal (originFromObject d) | _ \<Rightarrow> JSUndefined))
     \<and> (\<forall>k. k \<in> set (jsKeys (needsSomeLoveMap new))
               \<longleftrightarrow> truthy (jsGet (needsSomeLoveMap obj) k))
     \<and> set (jsKeys (totalSentAssetsMap new)) = set (jsKeys (totalSentAssetsMap obj))
     \<and> (\<forall>k \<in> set (jsKeys (totalSentAssetsMap obj)).
           \<exists>a. assetFromObject (jsGet (totalSentAssetsMap obj) k) = Inr a
                \<and> jsGet (totalSentAssetsMap new) k = JSVal a)
     \<and> (\<forall>k. jsGet (topOriginsMap obj) k = JSNull \<longrightarrow>
            jsGet (topOriginsMap new) k = JSUndefined
            \<and> k \<notin> set (jsKeys (topOriginsMap new)))"
    by blast
qed

theorem fromObject_guards_board_entries_not_asset_entries_witness:
  "fromObject (\<lambda>d. d) (\<lambda>v. case v of JSVal n \<Rightarrow> Inr n | _ \<Rightarrow> (Inr 0 :: unit + nat))
     \<lparr> totalTimeSpent = Num 30, totalMonetizedTimeSpent = Num 10, totalVisits = Num 2,
       totalMonetizedVisits = Num 1,
       topOriginsMap = [(1, JSVal \<lparr>origin = ''a'', isCurrentlyMonetized = True,
                                  originVisitData = \<lparr>timeSpentAtOrigin = 10\<rparr>\<rparr>),
                        (2, JSNull)],
       needsSomeLoveMap = [],
       totalSentAssetsMap = [(''USD'', JSNull)] \<rparr>
   = Inr \<lparr> totalTimeSpent = Num 30, totalMonetizedTimeSpent = Num 10, totalVisits = Num 2,
       totalMonetizedVisits = Num 1,
       topOriginsMap = [(1, JSVal \<lparr>origin = ''a'', isCurrentlyMonetized = True,
                                  originVisitData = \<lparr>timeSpentAtOrigin = 10\<rparr>\<rparr>)],
       needsSomeLoveMap = [],
       totalSentAssetsMap = [(''USD'', JSVal 0)] \<rparr>
   \<and> jsGet (topOriginsMap \<lparr> totalTimeSpent = Num 30, totalMonetizedTimeSpent = Num 10, totalVisits = Num 2,
       totalMonetizedVisits = Num 1,
       topOriginsMap = [(1, JSVal \<lparr>origin = ''a'', isCurrentlyMonetized = True,
                                  originVisitData = \<lparr>timeSpentAtOrigin = 10\<rparr>\<rparr>)],
       needsSomeLoveMap = [],
       totalSentAssetsMap = [(''USD'', JSVal (0::nat))] \<rparr>) 2 = JSUndefined"
proof -
  let ?f = "\<lambda>v. case v of JSVal n \<Rightarrow> Inr n | _ \<Rightarrow> (Inr 0 :: unit + nat)"
  let ?obj = "\<lparr> totalTimeSpent = Num 30, totalMonetizedTimeSpent = Num 10, totalVisits = Num 2,
       totalMonetizedVisits = Num 1,
       topOriginsMap = [(1, JSVal \<lparr>origin = ''a'', isCurrentlyMonetized = True,
                                  originVisitData = \<lparr>timeSpentAtOrigin = 10\<rparr>\<rparr>),
                        (2, JSNull)],
       needsSomeLoveMap = [],
       totalSentAssetsMap = [(''USD'', JSNull)] \<rparr>"
  let ?new = "\<lparr> totalTimeSpent = Num 30, totalMonetizedTimeSpent = Num 10, totalVisits = Num 2,
       totalMonetizedVisits = Num 1,
       topOriginsMap = [(1, JSVal \<lparr>origin = ''a'', isCurrentlyMonetized = True,
                                  originVisitData = \<lparr>timeSpentAtOrigin = 10\<rparr>\<rparr>)],
       needsSomeLoveMap = [],
       totalSentAssetsMap = [(''USD'', JSVal (0::nat))] \<rparr>"
  have run: "fromObject (\<lambda>d. d) ?f ?obj = Inr ?new"
    by (simp add: fromObject_def Let_def AkitaOriginStats_new_def jsKeys_def)
  have null: "jsGet (topOriginsMap ?obj) 2 = JSNull"
    by simp
  note all = fromObject_guards_board_entries_not_asset_entries
         [of "\<lambda>d. d" ?f ?obj ?new, THEN mp, OF run]
  note last = all[THEN conjunct2, THEN conjunct2, THEN conjunct2, THEN conjunct2,
      THEN conjunct2, THEN conjunct2, THEN spec, of 2, THEN mp, OF null]
  from last have "jsGet (topOriginsMap ?new) 2 = JSUndefined"
    by (rule conjunct1)
  with run show ?thesis by simp
qed

text \<open>
  C7: let the nested reconstructions copy what they are given: \<open>AkitaOriginData.fromObject\<close>
  returns an object equal to each entry of the board, and every entry of the asset map is a
  \<open>WebMonetizationAsset\<close> that \<open>WebMonetizationAsset.fromObject\<close> returns unchanged.
  Then \<open>fromObject\<close>, given the fields of an instance \<open>s\<close>, returns an instance with the
  four totals of \<open>s\<close>, with the same origin data at the same rank of the board as \<open>s\<close>,
  and with the same asset entry as \<open>s\<close> under every currency code.
\<close>

theorem fromObject_round_trip:
  assumes origins: "\<forall>k d. jsGet (topOriginsMap s) k = JSVal d \<longrightarrow> originFromObject d = d"
    and assets: "\<forall>k \<in> set (jsKeys (totalSentAssetsMap s)).
                   \<exists>a. jsGet (totalSentAssetsMap s) k = JSVal a \<and> assetFromObject (JSVal a) = Inr a"
  shows "\<exists>new. fromObject originFromObject assetFromObject s = Inr new
     \<and> totalTimeSpent new = totalTimeSpent s
     \<and> totalMonetizedTimeSpent new = totalMonetizedTimeSpent s
     \<and> totalVisits new = totalVisits s
     \<and> totalMonetizedVisits new = totalMonetizedVisits s
     \<and> (\<forall>k d. jsGet (topOriginsMap new) k = JSVal d \<longleftrightarrow> jsGet (topOriginsMap s) k = JSVal d)
     \<and> (\<forall>code. jsGet (totalSentAssetsMap new) code = jsGet (totalSentAssetsMap s) code)"
proof -
  from assets have "\<forall>k \<in> set (jsKeys (totalSentAssetsMap s)).
                      \<exists>a. assetFromObject (jsGet (totalSentAssetsMap s) k) = Inr a"
    by force
  from copyAssetEntries_succeeds[OF this] obtain m where
    m: "copyAssetEntries assetFromObject (totalSentAssetsMap s)
          (jsKeys (totalSentAssetsMap s)) [] = Inr m"
    by blast
  define new where "new = \<lparr> totalTimeSpent = totalTimeSpent s,
                   totalMonetizedTimeSpent = totalMonetizedTimeSpent s,
                   totalVisits = totalVisits s,
                   totalMonetizedVisits = totalMonetizedVisits s,
                   topOriginsMap = copyOriginEntries originFromObject (topOriginsMap s)
                                     (jsKeys (topOriginsMap s)) [],
                   needsSomeLoveMap = copyOriginEntries originFromObject (needsSomeLoveMap s)
                                        (jsKeys (needsSomeLoveMap s)) [],
                   totalSentAssetsMap = m \<rparr>"
  have run: "fromObject originFromObject assetFromObject s = Inr new"
    unfolding fromObject_Inr new_def using m by blast
  have totals: "totalTimeSpent new = totalTimeSpent s"
    "totalMonetizedTimeSpent new = totalMonetizedTimeSpent s"
    "totalVisits new = totalVisits s"
    "totalMonetizedVisits new = totalMonetizedVisits s"
    by (simp_all add: new_def)
  have board: "jsGet (topOriginsMap new) k = JSVal d \<longleftrightarrow> jsGet (topOriginsMap s) k = JSVal d"
    for k d
    using origins[rule_format, of k]
    by (cases "jsGet (topOriginsMap s) k") (auto simp: new_def copied_origin_slot)
  have ledger: "jsGet (totalSentAssetsMap new) code = jsGet (totalSentAssetsMap s) code" for code
  proof (cases "code \<in> set (jsKeys (totalSentAssetsMap s))")
    case True
    with assets obtain a where a: "jsGet (totalSentAssetsMap s) code = JSVal a"
      "assetFromObject (JSVal a) = Inr a" by blast
    from copyAssetEntries_result[OF m] True a show ?thesis
      by (simp add: new_def)
  next
    case False
    then have "jsGet (totalSentAssetsMap s) code = JSUndefined"
      by (simp add: set_jsKeys jsGet_absent)
    with copyAssetEntries_result[OF m] False show ?thesis
      by (simp add: new_def)
  qed
  from run totals board ledger show ?thesis by blast
qed

theorem fromObject_round_trip_witness:
  "(\<exists>new. fromObject (\<lambda>d. d) (\<lambda>v. case v of JSVal n \<Rightarrow> Inr n | _ \<Rightarrow> Inl ())
         \<lparr> totalTimeSpent = Num 30, totalMonetizedTimeSpent = Num 10, totalVisits = Num 2,
           totalMonetizedVisits = Num 1,
           topOriginsMap = [(1, JSVal (site ''a'' True 10)), (2, JSUndefined)],
           needsSomeLoveMap = [],
           totalSentAssetsMap = [(''USD'', JSVal (1000::nat))] \<rparr> = Inr new
        \<and> totalTimeSpent new = Num 30 \<and> totalMonetizedTimeSpent new = Num 10
        \<and> totalVisits new = Num 2 \<and> totalMonetizedVisits new = Num 1
        \<and> (\<forall>k d. jsGet (topOriginsMap new) k = JSVal d
                  \<longleftrightarrow> jsGet [(1, JSVal (site ''a'' True 10)), (2, JSUndefined)] k = JSVal d)
        \<and> (\<forall>code. jsGet (totalSentAssetsMap new) code
                  = jsGet [(''USD'', JSVal (1000::nat))] code))"
proof -
  let ?g = "\<lambda>v. case v of JSVal n \<Rightarrow> Inr n | _ \<Rightarrow> (Inl () :: unit + nat)"
  let ?s = "\<lparr> totalTimeSpent = Num 30, totalMonetizedTimeSpent = Num 10, totalVisits = Num 2,
           totalMonetizedVisits = Num 1,
           topOriginsMap = [(1, JSVal (site ''a'' True 10)), (2, JSUndefined)],
           needsSomeLoveMap = [],
           totalSentAssetsMap = [(''USD'', JSVal (1000::nat))] \<rparr>"
  have h1: "\<forall>k d. jsGet (topOriginsMap ?s) k = JSVal d \<longrightarrow> (\<lambda>d. d) d = d"
    by simp
  have h2: "\<forall>k \<in> set (jsKeys (totalSentAssetsMap ?s)).
      \<exists>a. jsGet (totalSentAssetsMap ?s) k = JSVal a \<and> ?g (JSVal a) = Inr a"
    by (simp add: jsKeys_def)
  from fromObject_round_trip[of ?s "\<lambda>d. d" ?g, OF h1 h2]
  show ?thesis by simp
qed

section \<open>The guard of the asset map\<close>

lemma updateAssetsMapWithAsset_rejected:
  "isNaN (defaultNull (amount pd)) \<or> isNaN (defaultNull (assetScale pd))
     \<or> \<not> truthyString (defaultNull (assetCode pd))
   \<Longrightarrow> updateAssetsMapWithAsset newAsset addAmount this pd = this"
  by (auto simp: updateAssetsMapWithAsset_def Let_def)

lemma updateAssetsMapWithAsset_rejected_cases:
  "amount pd = JSVal NaN \<or> assetScale pd = JSVal NaN
     \<or> assetCode pd = JSUndefined \<or> assetCode pd = JSNull \<or> assetCode pd = JSVal []
   \<Longrightarrow> updateAssetsMapWithAsset newAsset addAmount this pd = this"
  by (rule updateAssetsMapWithAsset_rejected) auto

text \<open>
  C3: \<open>updateAssetsMapWithAsset\<close> leaves the instance as it is when the amount or the scale
  is \<open>NaN\<close> or the asset code is missing, \<open>null\<close> or empty
  (\<open>updateAssetsMapWithAsset_rejected_cases\<close> above). A missing amount or scale is not
  among these cases: the default turns it into \<open>null\<close>, and \<open>isNaN(null)\<close> is false. Called
  on a new instance with a payment pointer and the asset code \<open>USD\<close> only, the method
  creates the entry for \<open>USD\<close> and calls \<open>addAmount(null, null)\<close> on it.
\<close>

theorem missing_amount_and_scale_still_create_entry:
  "totalSentAssetsMap (AkitaOriginStats_new :: 'a AkitaOriginStats) = []
   \<and> totalSentAssetsMap
       (updateAssetsMapWithAsset newAsset addAmount (AkitaOriginStats_new :: 'a AkitaOriginStats)
          \<lparr> paymentPointer = JSVal ''$wallet.example.com/alice'', amount = JSUndefined,
            assetScale = JSUndefined, assetCode = JSVal ''USD'' \<rparr>)
     = [(''USD'', JSVal (addAmount (newAsset ''USD'') JSNull JSNull))]"
  by (simp add: updateAssetsMapWithAsset_def AkitaOriginStats_new_def Let_def)

end
